theory Spec2Isabelle
  imports Main "HOL-Library.Word" "HOL-Library.Char_ord" "HOL-Library.List_Lexorder"
    "HOL-Library.Sublist"
begin

section \<open>The Python values the handler works on\<close>

text \<open>The exceptions that the operations below can raise; a raise is the value \<open>Inl e\<close>.\<close>

datatype exn = TypeError | OverflowError | AttributeError | ValueError

definition bind_exn :: "exn + 'a \<Rightarrow> ('a \<Rightarrow> exn + 'b) \<Rightarrow> exn + 'b" where
  "bind_exn m f = (case m of Inl e \<Rightarrow> Inl e | Inr x \<Rightarrow> f x)"

subsection \<open>Strings\<close>

text \<open>
  A Python \<open>str\<close> is a sequence of code points. The model covers the strings whose code
  points are below 256: a \<^typ>\<open>char\<close> is the code point \<^term>\<open>of_char c :: nat\<close>. The tables
  below are those of \<open>str.isspace\<close> (which the \<open>\s\<close> class of \<open>re\<close> and \<open>str.strip\<close> use),
  \<open>str.lower\<close> and \<open>str.upper\<close> on that range.
\<close>

definition py_isspace :: "char \<Rightarrow> bool" where
  "py_isspace c = (of_char c \<in> {9, 10, 11, 12, 13, 28, 29, 30, 31, 32, 133, 160 :: nat})"

definition lower_char :: "char \<Rightarrow> char" where
  "lower_char c =
     (let n = (of_char c :: nat)
      in if (65 \<le> n \<and> n \<le> 90) \<or> (192 \<le> n \<and> n \<le> 222 \<and> n \<noteq> 215)
         then char_of (n + 32) else c)"

definition py_lower :: "string \<Rightarrow> string" where
  "py_lower s = map lower_char s"

text \<open>
  \<open>str.upper\<close> leaves the range: U+00B5 becomes U+039C, U+00FF becomes U+0178, and U+00DF
  becomes the two letters SS. So the upper-cased string is a list of code points.
\<close>

definition upper_char :: "char \<Rightarrow> nat list" where
  "upper_char c =
     (let n = (of_char c :: nat)
      in if (97 \<le> n \<and> n \<le> 122) \<or> (224 \<le> n \<and> n \<le> 254 \<and> n \<noteq> 247) then [n - 32]
         else if n = 181 then [924]
         else if n = 223 then [83, 83]
         else if n = 255 then [376]
         else [n])"

definition py_upper :: "string \<Rightarrow> nat list" where
  "py_upper s = concat (map upper_char s)"

definition codes :: "string \<Rightarrow> nat list" where
  "codes s = map of_char s"

definition str_of_codes :: "nat list \<Rightarrow> string" where
  "str_of_codes ns = map char_of ns"

definition py_strip :: "string \<Rightarrow> string" where
  "py_strip s = rev (dropWhile py_isspace (rev (dropWhile py_isspace s)))"

text \<open>\<open>sep.join(xs)\<close>\<close>

fun join :: "string \<Rightarrow> string list \<Rightarrow> string" where
  "join sep [] = []"
| "join sep [x] = x"
| "join sep (x # y # ys) = x @ sep @ join sep (y # ys)"

text \<open>
  The decimal digits of a natural number, and \<open>str\<close> of an \<open>int\<close>: CPython (3.11 and
  later, with its default limit) raises ValueError for an \<open>int\<close> of more than 4300 digits.
\<close>

function digits :: "nat \<Rightarrow> string" where
  "digits n = (if n < 10 then [char_of (48 + n)] else digits (n div 10) @ [char_of (48 + n mod 10)])"
  by pat_completeness auto
termination
  by (relation "measure id") auto

declare digits.simps [simp del]

definition INT_MAX_STR_DIGITS :: nat where
  "INT_MAX_STR_DIGITS = 4300"

definition int_str :: "int \<Rightarrow> exn + string" where
  "int_str i =
     (if 10 ^ INT_MAX_STR_DIGITS \<le> \<bar>i\<bar> then Inl ValueError
      else Inr (if i < 0 then CHR ''-'' # digits (nat (- i)) else digits (nat i)))"

subsection \<open>Floats\<close>

text \<open>
  A Python \<open>float\<close> is an IEEE 754 binary64; the model holds its 64 bits: the sign, eleven
  bits of exponent and fifty-two bits of fraction. Its operations are computed exactly on
  integers and rounded to nearest, ties to even, as the hardware and CPython's \<open>dtoa\<close> do.
\<close>

type_synonym float = "64 word"

definition fsign :: "float \<Rightarrow> bool" where
  "fsign x = (2 ^ 63 \<le> unat x)"

definition fmag :: "float \<Rightarrow> nat" where
  "fmag x = unat x mod 2 ^ 63"

definition fexp :: "float \<Rightarrow> nat" where
  "fexp x = fmag x div 2 ^ 52"

definition ffrac :: "float \<Rightarrow> nat" where
  "ffrac x = fmag x mod 2 ^ 52"

definition INFBITS :: nat where
  "INFBITS = 2047 * 2 ^ 52"

definition is_nan :: "float \<Rightarrow> bool" where
  "is_nan x = (INFBITS < fmag x)"

definition is_inf :: "float \<Rightarrow> bool" where
  "is_inf x = (fmag x = INFBITS)"

text \<open>A finite float is \<open>mant * 2 ^ expo\<close>, negated when the sign is set.\<close>

definition mant :: "float \<Rightarrow> nat" where
  "mant x = (if fexp x = 0 then ffrac x else 2 ^ 52 + ffrac x)"

definition expo :: "float \<Rightarrow> int" where
  "expo x = (if fexp x = 0 then - 1074 else int (fexp x) - 1075)"

text \<open>The bits of a float from its sign and the bits of its magnitude, infinite on overflow.\<close>

definition pack :: "bool \<Rightarrow> nat \<Rightarrow> float" where
  "pack s mb = word_of_nat ((if s then 2 ^ 63 else 0) + min mb INFBITS)"

text \<open>
  NaNs, as the x86-64 hardware produces them: an invalid operation gives the NaN whose
  sign is set and whose fraction is its top bit only, and an operation on a NaN gives
  that NaN with the top bit of its fraction set.
\<close>

definition NAN :: float where
  "NAN = word_of_nat (2 ^ 63 + INFBITS + 2 ^ 51)"

definition quiet :: "float \<Rightarrow> float" where
  "quiet x = (if ffrac x div 2 ^ 51 = 0 then x + 2 ^ 51 else x)"

fun bitlen :: "nat \<Rightarrow> nat" where
  "bitlen n = (if n = 0 then 0 else Suc (bitlen (n div 2)))"

declare bitlen.simps [simp del]

text \<open>\<open>num / den\<close> rounded to the nearest integer, a tie to the even one.\<close>

definition rhe :: "nat \<Rightarrow> nat \<Rightarrow> nat" where
  "rhe num den =
     (let q = num div den; r = num mod den
      in if den < 2 * r \<or> (2 * r = den \<and> odd q) then q + 1 else q)"

text \<open>
  The magnitude bits of the binary64 nearest to \<open>p / q\<close> (\<open>0 < q\<close>): the exponent \<open>e\<close> is
  that of the 53-bit significand, or the least one for a subnormal, and a significand
  that rounds up to \<open>2 ^ 53\<close> carries into the exponent field by the addition. A result
  of \<^const>\<open>INFBITS\<close> or more is an overflow.
\<close>

definition round_mag :: "nat \<Rightarrow> nat \<Rightarrow> nat" where
  "round_mag p q =
     (if p = 0 then 0
      else
        let d = int (bitlen p) - int (bitlen q);
            fl = (if q * 2 ^ nat d \<le> p * 2 ^ nat (- d) then d else d - 1);
            e = max (fl - 52) (- 1074);
            m = rhe (p * 2 ^ nat (- e)) (q * 2 ^ nat e)
        in nat (e + 1074) * 2 ^ 52 + m)"

text \<open>\<open>float(n)\<close> of an \<open>int\<close>: \<open>None\<close> is the OverflowError "int too large to convert to float".\<close>

definition float_of_int :: "int \<Rightarrow> float option" where
  "float_of_int n =
     (let mb = round_mag (nat \<bar>n\<bar>) 1
      in if INFBITS \<le> mb then None else Some (pack (n < 0) mb))"

text \<open>\<open>x <= 0\<close>\<close>

definition float_le_zero :: "float \<Rightarrow> bool" where
  "float_le_zero x = (\<not> is_nan x \<and> (fsign x \<or> fmag x = 0))"

text \<open>\<open>x < n\<close> for an \<open>int\<close> \<open>n\<close>: Python compares the exact values.\<close>

definition float_lt_int :: "float \<Rightarrow> int \<Rightarrow> bool" where
  "float_lt_int x n =
     (if is_nan x then False
      else if is_inf x then fsign x
      else (if fsign x then - 1 else 1) * int (mant x) * 2 ^ nat (expo x) < n * 2 ^ nat (- expo x))"

text \<open>\<open>a * b\<close>; an infinity times a zero is invalid.\<close>

definition fmul :: "float \<Rightarrow> float \<Rightarrow> float" where
  "fmul a b =
     (if is_nan a then quiet a
      else if is_nan b then quiet b
      else if is_inf a \<or> is_inf b then
        (if fmag a = 0 \<or> fmag b = 0 then NAN else pack (fsign a \<noteq> fsign b) INFBITS)
      else
        let e = expo a + expo b; m = mant a * mant b
        in pack (fsign a \<noteq> fsign b) (round_mag (m * 2 ^ nat e) (2 ^ nat (- e))))"

text \<open>
  \<open>a - b\<close>; an infinity minus itself is invalid, and an exact zero is positive unless it
  is \<open>-0.0 - 0.0\<close>.
\<close>

definition fsub :: "float \<Rightarrow> float \<Rightarrow> float" where
  "fsub a b =
     (if is_nan a then quiet a
      else if is_nan b then quiet b
      else if is_inf a then (if is_inf b \<and> fsign a = fsign b then NAN else a)
      else if is_inf b then pack (\<not> fsign b) INFBITS
      else
        let e = min (expo a) (expo b);
            x = (if fsign a then - 1 else 1) * int (mant a) * 2 ^ nat (expo a - e);
            y = (if fsign b then - 1 else 1) * int (mant b) * 2 ^ nat (expo b - e);
            d = x - y
        in if d = 0 then pack (fsign a \<and> \<not> fsign b) 0
           else pack (d < 0) (round_mag (nat \<bar>d\<bar> * 2 ^ nat e) (2 ^ nat (- e))))"

text \<open>
  \<open>round(x, 3)\<close>: an infinity and a NaN round to themselves; a finite \<open>x\<close> is written with
  three decimals, correctly rounded from its exact value (a tie to the even digit), and
  read back, with the sign of \<open>x\<close>.
\<close>

definition round3 :: "float \<Rightarrow> float" where
  "round3 x =
     (if fexp x = 2047 then x
      else pack (fsign x)
             (round_mag (rhe (mant x * 1000 * 2 ^ nat (expo x)) (2 ^ nat (- expo x))) 1000))"

text \<open>
  \<open>repr(x)\<close>, which is also \<open>str(x)\<close>: the shortest decimal that reads back as \<open>x\<close>, the
  closest to \<open>x\<close> of that length. \<open>candidate m e n\<close> is the \<open>n\<close>-digit decimal \<open>c * 10 ^ u\<close>
  for \<open>m * 2 ^ e\<close>, when one lies between the halfway points to the neighbouring floats
  (which themselves read back as \<open>x\<close> when \<open>m\<close> is even).
\<close>

definition dec_exp :: "nat \<Rightarrow> nat \<Rightarrow> int" where
  "dec_exp xn den =
     (if den \<le> xn then int (length (digits (xn div den))) - 1
      else - int (length (digits ((den - 1) div xn))))"

definition candidate :: "nat \<Rightarrow> int \<Rightarrow> nat \<Rightarrow> (nat \<times> int) option" where
  "candidate m e n =
     (let sc = 2 ^ nat (e - 2); den = 2 ^ nat (2 - e);
          xn = 4 * m * sc; hn = (4 * m + 2) * sc;
          ln = (if m = 2 ^ 52 \<and> - 1074 < e then 4 * m - 1 else 4 * m - 2) * sc;
          u = dec_exp xn den + 1 - int n;
          X = xn * 10 ^ nat (- u); L = ln * 10 ^ nat (- u); H = hn * 10 ^ nat (- u);
          D = den * 10 ^ nat u;
          inside = (\<lambda>c. (L < c * D \<and> c * D < H) \<or> (even m \<and> (c * D = L \<or> c * D = H)));
          lo = X div D; hi = lo + 1
      in if inside lo \<and> inside hi then
           (if X - lo * D < hi * D - X \<or> (X - lo * D = hi * D - X \<and> even lo)
            then Some (lo, u) else Some (hi, u))
         else if inside lo then Some (lo, u)
         else if inside hi then Some (hi, u)
         else None)"

text \<open>Seventeen digits identify every binary64, so the search ends there.\<close>

fun shortest :: "nat \<Rightarrow> int \<Rightarrow> nat list \<Rightarrow> (nat \<times> int) option" where
  "shortest m e [] = candidate m e 17"
| "shortest m e (n # ns) = (case candidate m e n of Some r \<Rightarrow> Some r | None \<Rightarrow> shortest m e ns)"

definition strip_zeros :: "string \<Rightarrow> string" where
  "strip_zeros ds = rev (dropWhile (\<lambda>c. c = CHR ''0'') (rev ds))"

definition format_digits :: "string \<Rightarrow> int \<Rightarrow> string" where
  "format_digits ds decpt =
     (let n = int (length ds)
      in if decpt \<le> - 4 \<or> 16 < decpt then
           (let ex = decpt - 1; es = digits (nat \<bar>ex\<bar>)
            in hd ds # (if 1 < n then CHR ''.'' # tl ds else [])
               @ ''e'' @ (if ex < 0 then ''-'' else ''+'')
               @ (if length es < 2 then CHR ''0'' # es else es))
         else if decpt \<le> 0 then ''0.'' @ replicate (nat (- decpt)) CHR ''0'' @ ds
         else if n \<le> decpt then ds @ replicate (nat (decpt - n)) CHR ''0'' @ ''.0''
         else take (nat decpt) ds @ ''.'' @ drop (nat decpt) ds)"

definition float_repr :: "float \<Rightarrow> string" where
  "float_repr x =
     (if is_nan x then ''nan''
      else (if fsign x then ''-'' else '''') @
        (if is_inf x then ''inf''
         else if mant x = 0 then ''0.0''
         else (case shortest (mant x) (expo x) [1 ..< 17] of
                 None \<Rightarrow> ''''
               | Some (c, u) \<Rightarrow>
                   format_digits (strip_zeros (digits c)) (int (length (digits c)) + u))))"

text \<open>A float literal is the binary64 nearest to the decimal written; this one is \<open>0.02\<close>.\<close>

definition FLOAT_0_02 :: float where
  "FLOAT_0_02 = pack False (round_mag 2 100)"

subsection \<open>Values\<close>

text \<open>
  The values an event can hold, as a JSON document gives them: the hashable ones
  (\<open>None\<close>, \<open>bool\<close>, \<open>int\<close>, \<open>float\<close>, \<open>str\<close>), lists, and dicts with \<open>str\<close> keys.
\<close>

datatype atom = ANone | ABool bool | AInt int | AFloat float | AStr string

datatype pyval = Atom atom | PList "pyval list" | PDict "string \<Rightarrow> pyval option"

text \<open>\<open>isinstance(v, int)\<close>, \<open>isinstance(v, str)\<close>, \<open>isinstance(v, (int, float))\<close>: a \<open>bool\<close> is an \<open>int\<close>.\<close>

fun isinstance_int :: "pyval \<Rightarrow> bool" where
  "isinstance_int (Atom (AInt n)) = True"
| "isinstance_int (Atom (ABool b)) = True"
| "isinstance_int v = False"

fun isinstance_str :: "pyval \<Rightarrow> bool" where
  "isinstance_str (Atom (AStr s)) = True"
| "isinstance_str v = False"

fun isinstance_int_float :: "pyval \<Rightarrow> bool" where
  "isinstance_int_float (Atom (AInt n)) = True"
| "isinstance_int_float (Atom (ABool b)) = True"
| "isinstance_int_float (Atom (AFloat x)) = True"
| "isinstance_int_float v = False"

text \<open>What an f-string writes for \<open>{v}\<close>, that is \<open>str(v)\<close>.\<close>

fun py_str :: "atom \<Rightarrow> exn + string" where
  "py_str ANone = Inr ''None''"
| "py_str (ABool b) = Inr (if b then ''True'' else ''False'')"
| "py_str (AInt n) = int_str n"
| "py_str (AFloat x) = Inr (float_repr x)"
| "py_str (AStr s) = Inr s"

text \<open>\<open>v in S\<close> for a set \<open>S\<close> of \<open>str\<close>: only an equal \<open>str\<close> is a member.\<close>

fun py_in :: "atom \<Rightarrow> string set \<Rightarrow> bool" where
  "py_in (AStr s) S = (s \<in> S)"
| "py_in a S = False"

text \<open>
  \<open>v.lower()\<close>, \<open>v.upper()\<close>, \<open>v.strip()\<close>: only a \<open>str\<close> has these methods.
\<close>

fun str_lower :: "pyval \<Rightarrow> exn + string" where
  "str_lower (Atom (AStr s)) = Inr (py_lower s)"
| "str_lower v = Inl AttributeError"

fun str_upper :: "pyval \<Rightarrow> exn + nat list" where
  "str_upper (Atom (AStr s)) = Inr (py_upper s)"
| "str_upper v = Inl AttributeError"

fun str_strip :: "pyval \<Rightarrow> exn + string" where
  "str_strip (Atom (AStr s)) = Inr (py_strip s)"
| "str_strip v = Inl AttributeError"

text \<open>
  \<open>float(v)\<close>. Of a \<open>str\<close> it reads a number or raises ValueError; that reading is not
  modelled. The payment handler calls \<open>float\<close> once the amount has passed its checks, so
  on an \<open>int\<close>, a \<open>bool\<close> or a \<open>float\<close> only.
\<close>

fun py_float :: "pyval \<Rightarrow> exn + float" where
  "py_float (Atom (AFloat x)) = Inr x"
| "py_float (Atom (AInt n)) = (case float_of_int n of None \<Rightarrow> Inl OverflowError | Some x \<Rightarrow> Inr x)"
| "py_float (Atom (ABool b)) = (case float_of_int (of_bool b) of None \<Rightarrow> Inl OverflowError | Some x \<Rightarrow> Inr x)"
| "py_float (Atom (AStr s)) = Inl ValueError"
| "py_float v = Inl TypeError"

text \<open>\<open>v < n\<close> for an \<open>int\<close> literal \<open>n\<close>.\<close>

fun py_lt :: "pyval \<Rightarrow> int \<Rightarrow> exn + bool" where
  "py_lt (Atom (AInt i)) n = Inr (i < n)"
| "py_lt (Atom (ABool b)) n = Inr (of_bool b < n)"
| "py_lt (Atom (AFloat x)) n = Inr (float_lt_int x n)"
| "py_lt v n = Inl TypeError"

section \<open>The module\<close>

definition ALLOWED_TYPES :: "string set" where
  "ALLOWED_TYPES = {''USER_SIGNUP'', ''PAYMENT'', ''FILE_UPLOAD''}"

definition ALLOWED_PLANS :: "string set" where
  "ALLOWED_PLANS = {''free'', ''pro'', ''edu''}"

definition ALLOWED_CURRENCIES :: "string set" where
  "ALLOWED_CURRENCIES = {''BHD'', ''USD'', ''EUR''}"

text \<open>The response: a dict of four fixed keys.\<close>

record result =
  status :: string
  message :: string
  data :: pyval
  errors :: "string list"

definition err :: "string list \<Rightarrow> result" where
  "err msgs = \<lparr>status = ''error'', message = ''Event rejected'', data = Atom ANone, errors = msgs\<rparr>"

definition ok :: "string \<Rightarrow> (string \<Rightarrow> pyval option) \<Rightarrow> result" where
  "ok msg d = \<lparr>status = ''ok'', message = msg, data = PDict d, errors = []\<rparr>"

subsection \<open>The email pattern\<close>

text \<open>
  The nodes of the pattern \<open>^[^@\s]+@[^@\s]+\.[^@\s]+$\<close>: the two anchors, a literal
  character, and one or more characters of a class. \<open>re.match\<close> tries the pattern at the
  start of the string, with backtracking: \<open>re_match ns at_start s\<close> says whether the nodes
  \<open>ns\<close> match some prefix of the rest \<open>s\<close> of the string. \<open>^\<close> matches at the start of
  the string; \<open>$\<close> matches at its end, and also just before a newline that ends it.
\<close>

datatype re_node = Caret | Dollar | Lit char | Plus "char \<Rightarrow> bool"

fun re_match :: "re_node list \<Rightarrow> bool \<Rightarrow> string \<Rightarrow> bool" where
  "re_match [] at_start s = True"
| "re_match (Caret # ns) at_start s = (at_start \<and> re_match ns at_start s)"
| "re_match (Dollar # ns) at_start s = ((s = [] \<or> s = [CHR 0x0A]) \<and> re_match ns at_start s)"
| "re_match (Lit c # ns) at_start [] = False"
| "re_match (Lit c # ns) at_start (x # xs) = (x = c \<and> re_match ns False xs)"
| "re_match (Plus p # ns) at_start [] = False"
| "re_match (Plus p # ns) at_start (x # xs) =
     (p x \<and> (re_match (Plus p # ns) False xs \<or> re_match ns False xs))"

text \<open>The class \<open>[^@\s]\<close>\<close>

definition not_at_space :: "char \<Rightarrow> bool" where
  "not_at_space c = (c \<noteq> CHR ''@'' \<and> \<not> py_isspace c)"

definition EMAIL_RE :: "re_node list" where
  "EMAIL_RE =
     [Caret, Plus not_at_space, Lit CHR ''@'', Plus not_at_space, Lit CHR ''.'',
      Plus not_at_space, Dollar]"

definition is_email :: "string \<Rightarrow> bool" where
  "is_email v = re_match EMAIL_RE True v"

subsection \<open>The handlers\<close>

text \<open>\<open>event.get(k)\<close>: \<open>None\<close> for an absent key.\<close>

definition get :: "(string \<Rightarrow> pyval option) \<Rightarrow> string \<Rightarrow> pyval" where
  "get event k = (case event k of None \<Rightarrow> Atom ANone | Some v \<Rightarrow> v)"

text \<open>A name or value between apostrophes, as the messages write it.\<close>

definition quoted :: "string \<Rightarrow> string" where
  "quoted s = [CHR 0x27] @ s @ [CHR 0x27]"

text \<open>
  Each handler appends to its list of errors field by field (\<open>errors0\<close>, \<open>errors1\<close>, ... are
  the list after each field), returns the error response when the list is not empty, and
  only then normalises. The payment handler writes the amount into a message, which can
  raise; the fields after it are then not reached.
\<close>

definition handle_user_signup :: "(string \<Rightarrow> pyval option) \<Rightarrow> exn + result" where
  "handle_user_signup event =
     (let errors0 = [];
          user_id = get event ''user_id'';
          email = get event ''email'';
          plan = get event ''plan'';
          errors1 =
            (if user_id = Atom ANone then errors0 @ [''Missing required field: '' @ quoted ''user_id'']
             else if \<not> isinstance_int user_id then errors0 @ [quoted ''user_id'' @ '' must be an integer'']
             else errors0);
          errors2 =
            (case email of
               Atom ANone \<Rightarrow> errors1 @ [''Missing required field: '' @ quoted ''email'']
             | Atom (AStr s) \<Rightarrow>
                 if \<not> is_email s then errors1 @ [''Invalid email format: '' @ quoted s] else errors1
             | _ \<Rightarrow> errors1 @ [quoted ''email'' @ '' must be a string'']);
          errors3 =
            (case plan of
               Atom ANone \<Rightarrow> errors2 @ [''Missing required field: '' @ quoted ''plan'']
             | Atom (AStr s) \<Rightarrow>
                 if py_lower s \<notin> ALLOWED_PLANS
                 then errors2 @ [''Invalid plan: '' @ quoted s @ ''. Allowed: ''
                                 @ join '', '' (sorted_list_of_set ALLOWED_PLANS)]
                 else errors2
             | _ \<Rightarrow> errors2 @ [quoted ''plan'' @ '' must be a string''])
      in if errors3 \<noteq> [] then Inr (err errors3)
         else
           bind_exn (str_lower email) (\<lambda>normalized_email.
           bind_exn (str_lower plan) (\<lambda>normalized_plan.
             Inr (ok ''Signup processed''
               [''user_id'' \<mapsto> user_id,
                ''email'' \<mapsto> Atom (AStr normalized_email),
                ''plan'' \<mapsto> Atom (AStr normalized_plan),
                ''welcome_email_subject'' \<mapsto>
                  Atom (AStr (''Welcome to the '' @ normalized_plan @ '' plan!''))]))))"

definition handle_payment :: "(string \<Rightarrow> pyval option) \<Rightarrow> exn + result" where
  "handle_payment event =
     (let errors0 = [];
          payment_id = get event ''payment_id'';
          user_id = get event ''user_id'';
          amount = get event ''amount'';
          currency = get event ''currency'';
          errors1 =
            (if payment_id = Atom ANone then errors0 @ [''Missing required field: '' @ quoted ''payment_id'']
             else if \<not> isinstance_str payment_id then errors0 @ [quoted ''payment_id'' @ '' must be a string'']
             else errors0);
          errors2 =
            (if user_id = Atom ANone then errors1 @ [''Missing required field: '' @ quoted ''user_id'']
             else if \<not> isinstance_int user_id then errors1 @ [quoted ''user_id'' @ '' must be an integer'']
             else errors1);
          amount_message = (\<lambda>a. bind_exn (py_str a) (\<lambda>s.
            Inr (errors2 @ [quoted ''amount'' @ '' must be greater than 0, got '' @ s])))
      in bind_exn
           (case amount of
              Atom ANone \<Rightarrow> Inr (errors2 @ [''Missing required field: '' @ quoted ''amount''])
            | Atom (AInt n) \<Rightarrow> if n \<le> 0 then amount_message (AInt n) else Inr errors2
            | Atom (ABool b) \<Rightarrow>
                if of_bool b \<le> (0 :: int) then amount_message (ABool b) else Inr errors2
            | Atom (AFloat x) \<Rightarrow> if float_le_zero x then amount_message (AFloat x) else Inr errors2
            | _ \<Rightarrow> Inr (errors2 @ [quoted ''amount'' @ '' must be a number'']))
           (\<lambda>errors3.
      let errors4 =
            (case currency of
               Atom ANone \<Rightarrow> errors3 @ [''Missing required field: '' @ quoted ''currency'']
             | Atom (AStr s) \<Rightarrow>
                 if py_upper s \<notin> codes ` ALLOWED_CURRENCIES
                 then errors3 @ [''Invalid currency: '' @ quoted s @ ''. Allowed: ''
                                 @ join '', '' (sorted_list_of_set ALLOWED_CURRENCIES)]
                 else errors3
             | _ \<Rightarrow> errors3 @ [quoted ''currency'' @ '' must be a string''])
      in if errors4 \<noteq> [] then Inr (err errors4)
         else
           bind_exn (py_float amount) (\<lambda>x.
           let normalized_amount = round3 x
           in bind_exn (str_upper currency) (\<lambda>normalized_currency.
           let fee = round3 (fmul FLOAT_0_02 normalized_amount);
               net_amount = round3 (fsub normalized_amount fee)
           in Inr (ok ''Payment processed''
                [''payment_id'' \<mapsto> payment_id,
                 ''user_id'' \<mapsto> user_id,
                 ''amount'' \<mapsto> Atom (AFloat normalized_amount),
                 ''currency'' \<mapsto> Atom (AStr (str_of_codes normalized_currency)),
                 ''fee'' \<mapsto> Atom (AFloat fee),
                 ''net_amount'' \<mapsto> Atom (AFloat net_amount)])))))"

definition handle_file_upload :: "(string \<Rightarrow> pyval option) \<Rightarrow> exn + result" where
  "handle_file_upload event =
     (let errors0 = [];
          file_name = get event ''file_name'';
          size_bytes = get event ''size_bytes'';
          bucket = get event ''bucket'';
          uploader = get event ''uploader'';
          errors1 =
            (if file_name = Atom ANone then errors0 @ [''Missing required field: '' @ quoted ''file_name'']
             else if \<not> isinstance_str file_name then errors0 @ [quoted ''file_name'' @ '' must be a string'']
             else errors0);
          errors2 =
            (case size_bytes of
               Atom ANone \<Rightarrow> errors1 @ [''Missing required field: '' @ quoted ''size_bytes'']
             | Atom (AInt n) \<Rightarrow>
                 if n < 0 then errors1 @ [quoted ''size_bytes'' @ '' must be >= 0''] else errors1
             | Atom (ABool b) \<Rightarrow>
                 if of_bool b < (0 :: int) then errors1 @ [quoted ''size_bytes'' @ '' must be >= 0'']
                 else errors1
             | _ \<Rightarrow> errors1 @ [quoted ''size_bytes'' @ '' must be an integer'']);
          errors3 =
            (if bucket = Atom ANone then errors2 @ [''Missing required field: '' @ quoted ''bucket'']
             else if \<not> isinstance_str bucket then errors2 @ [quoted ''bucket'' @ '' must be a string'']
             else errors2);
          errors4 =
            (case uploader of
               Atom ANone \<Rightarrow> errors3 @ [''Missing required field: '' @ quoted ''uploader'']
             | Atom (AStr s) \<Rightarrow>
                 if \<not> is_email s then errors3 @ [''Invalid uploader email: '' @ quoted s] else errors3
             | _ \<Rightarrow> errors3 @ [quoted ''uploader'' @ '' must be a string''])
      in if errors4 \<noteq> [] then Inr (err errors4)
         else
           bind_exn (str_strip file_name) (\<lambda>normalized_file_name.
           bind_exn (str_lower bucket) (\<lambda>normalized_bucket.
           bind_exn (str_lower uploader) (\<lambda>normalized_uploader.
           bind_exn
             (bind_exn (py_lt size_bytes 1000000) (\<lambda>small.
                if small then Inr ''STANDARD''
                else bind_exn (py_lt size_bytes 50000000) (\<lambda>medium.
                  if medium then Inr ''STANDARD_IA'' else Inr ''GLACIER'')))
             (\<lambda>storage_class.
                Inr (ok ''Upload processed''
                  [''file_name'' \<mapsto> Atom (AStr normalized_file_name),
                   ''size_bytes'' \<mapsto> size_bytes,
                   ''bucket'' \<mapsto> Atom (AStr normalized_bucket),
                   ''uploader'' \<mapsto> Atom (AStr normalized_uploader),
                   ''storage_class'' \<mapsto> Atom (AStr storage_class)]))))))"

subsection \<open>The entry point\<close>

text \<open>
  \<open>handler(event, context)\<close>. The test \<open>event_type not in ALLOWED_TYPES\<close> hashes the value, so
  a list or a dict there raises TypeError, and the message for an unknown type writes the
  value with \<open>str\<close>. A call that falls off the end of the function returns \<open>None\<close>, here
  \<open>Inr None\<close>.
\<close>

definition handler :: "pyval \<Rightarrow> pyval \<Rightarrow> exn + result option" where
  "handler event context =
     (case event of
        PDict ev \<Rightarrow>
          (case ev ''type'' of
             None \<Rightarrow> Inr (Some (err [''Missing required field: '' @ quoted ''type'']))
           | Some event_type \<Rightarrow>
               (case event_type of
                  Atom a \<Rightarrow>
                    if \<not> py_in a ALLOWED_TYPES
                    then bind_exn (py_str a) (\<lambda>s.
                      Inr (Some (err [''Unknown event type: '' @ quoted s @ ''. Allowed: ''
                                      @ join '', '' (sorted_list_of_set ALLOWED_TYPES)])))
                    else if a = AStr ''USER_SIGNUP'' then map_sum id Some (handle_user_signup ev)
                    else if a = AStr ''PAYMENT'' then map_sum id Some (handle_payment ev)
                    else if a = AStr ''FILE_UPLOAD'' then map_sum id Some (handle_file_upload ev)
                    else Inr None
                | _ \<Rightarrow> Inl TypeError))
      | _ \<Rightarrow> Inr (Some (err [''Event must be a JSON object (dict), not a list or other type''])))"

section \<open>The statements of the specification\<close>

text \<open>
  The email format as the specification words it: a local part, \<open>@\<close>, a domain part, a dot
  and a remainder, each part one or more characters that are neither whitespace nor \<open>@\<close>,
  and nothing before or after.
\<close>

definition email_shape :: "string \<Rightarrow> bool" where
  "email_shape s =
     (\<exists>l d r. s = l @ [CHR ''@''] @ d @ [CHR ''.''] @ r \<and> l \<noteq> [] \<and> d \<noteq> [] \<and> r \<noteq> [] \<and>
        list_all not_at_space l \<and> list_all not_at_space d \<and> list_all not_at_space r)"

text \<open>
  The checks of each field as the specification lists them, one list of messages for
  each field; a handler's errors are these lists, in the order of its fields.
\<close>

definition user_id_checks :: "pyval \<Rightarrow> string list" where
  "user_id_checks v =
     (if v = Atom ANone then [''Missing required field: '' @ quoted ''user_id'']
      else if \<not> isinstance_int v then [quoted ''user_id'' @ '' must be an integer'']
      else [])"

definition email_checks :: "pyval \<Rightarrow> string list" where
  "email_checks v =
     (case v of
        Atom ANone \<Rightarrow> [''Missing required field: '' @ quoted ''email'']
      | Atom (AStr s) \<Rightarrow> if is_email s then [] else [''Invalid email format: '' @ quoted s]
      | _ \<Rightarrow> [quoted ''email'' @ '' must be a string''])"

definition plan_checks :: "pyval \<Rightarrow> string list" where
  "plan_checks v =
     (case v of
        Atom ANone \<Rightarrow> [''Missing required field: '' @ quoted ''plan'']
      | Atom (AStr s) \<Rightarrow>
          if py_lower s \<in> {''free'', ''pro'', ''edu''} then []
          else [''Invalid plan: '' @ quoted s @ ''. Allowed: edu, free, pro'']
      | _ \<Rightarrow> [quoted ''plan'' @ '' must be a string''])"

definition required_str :: "string \<Rightarrow> pyval \<Rightarrow> string list" where
  "required_str name v =
     (if v = Atom ANone then [''Missing required field: '' @ quoted name]
      else if \<not> isinstance_str v then [quoted name @ '' must be a string'']
      else [])"

definition amount_checks :: "pyval \<Rightarrow> exn + string list" where
  "amount_checks v =
     (case v of
        Atom ANone \<Rightarrow> Inr [''Missing required field: '' @ quoted ''amount'']
      | Atom (AInt n) \<Rightarrow>
          if 0 < n then Inr []
          else bind_exn (int_str n) (\<lambda>s.
                 Inr [quoted ''amount'' @ '' must be greater than 0, got '' @ s])
      | Atom (ABool b) \<Rightarrow>
          Inr (if b then [] else [quoted ''amount'' @ '' must be greater than 0, got False''])
      | Atom (AFloat x) \<Rightarrow>
          Inr (if float_le_zero x
               then [quoted ''amount'' @ '' must be greater than 0, got '' @ float_repr x] else [])
      | _ \<Rightarrow> Inr [quoted ''amount'' @ '' must be a number''])"

definition currency_checks :: "pyval \<Rightarrow> string list" where
  "currency_checks v =
     (case v of
        Atom ANone \<Rightarrow> [''Missing required field: '' @ quoted ''currency'']
      | Atom (AStr s) \<Rightarrow>
          if py_upper s \<in> {codes ''BHD'', codes ''USD'', codes ''EUR''} then []
          else [''Invalid currency: '' @ quoted s @ ''. Allowed: BHD, EUR, USD'']
      | _ \<Rightarrow> [quoted ''currency'' @ '' must be a string''])"

definition size_bytes_checks :: "pyval \<Rightarrow> string list" where
  "size_bytes_checks v =
     (case v of
        Atom ANone \<Rightarrow> [''Missing required field: '' @ quoted ''size_bytes'']
      | Atom (AInt n) \<Rightarrow> if n < 0 then [quoted ''size_bytes'' @ '' must be >= 0''] else []
      | Atom (ABool b) \<Rightarrow> []
      | _ \<Rightarrow> [quoted ''size_bytes'' @ '' must be an integer''])"

definition uploader_checks :: "pyval \<Rightarrow> string list" where
  "uploader_checks v =
     (case v of
        Atom ANone \<Rightarrow> [''Missing required field: '' @ quoted ''uploader'']
      | Atom (AStr s) \<Rightarrow> if is_email s then [] else [''Invalid uploader email: '' @ quoted s]
      | _ \<Rightarrow> [quoted ''uploader'' @ '' must be a string''])"


text \<open>Writing the amount into its message can raise; then the payment has no list of errors.\<close>

definition payment_checks :: "(string \<Rightarrow> pyval option) \<Rightarrow> exn + string list" where
  "payment_checks ev =
     bind_exn (amount_checks (get ev ''amount'')) (\<lambda>amount_messages.
       Inr (required_str ''payment_id'' (get ev ''payment_id'') @ user_id_checks (get ev ''user_id'')
            @ amount_messages @ currency_checks (get ev ''currency'')))"

definition file_upload_checks :: "(string \<Rightarrow> pyval option) \<Rightarrow> string list" where
  "file_upload_checks ev =
     required_str ''file_name'' (get ev ''file_name'') @ size_bytes_checks (get ev ''size_bytes'')
     @ required_str ''bucket'' (get ev ''bucket'') @ uploader_checks (get ev ''uploader'')"


section \<open>Evaluation\<close>

lemma sorted_ALLOWED_PLANS: "sorted_list_of_set ALLOWED_PLANS = [''edu'', ''free'', ''pro'']"
  unfolding ALLOWED_PLANS_def by code_simp

lemma sorted_ALLOWED_TYPES:
  "sorted_list_of_set ALLOWED_TYPES = [''FILE_UPLOAD'', ''PAYMENT'', ''USER_SIGNUP'']"
  unfolding ALLOWED_TYPES_def by code_simp

lemma sorted_ALLOWED_CURRENCIES: "sorted_list_of_set ALLOWED_CURRENCIES = [''BHD'', ''EUR'', ''USD'']"
  unfolding ALLOWED_CURRENCIES_def by code_simp

lemmas email_eval = is_email_def EMAIL_RE_def not_at_space_def py_isspace_def
lemmas str_eval = py_lower_def lower_char_def py_upper_def upper_char_def codes_def str_of_codes_def
  py_strip_def py_isspace_def char_of_def bit_0 quoted_def

section \<open>The email format validator\<close>

lemma re_match_Plus:
  "re_match (Plus p # ns) b s \<longleftrightarrow>
     (\<exists>u v. s = u @ v \<and> u \<noteq> [] \<and> list_all p u \<and> re_match ns False v)"
proof (induction s arbitrary: b)
  case Nil
  show ?case by simp
next
  case (Cons x xs)
  show ?case
  proof
    assume "re_match (Plus p # ns) b (x # xs)"
    then have px: "p x" and rest: "re_match (Plus p # ns) False xs \<or> re_match ns False xs"
      by simp_all
    from rest show "\<exists>u v. x # xs = u @ v \<and> u \<noteq> [] \<and> list_all p u \<and> re_match ns False v"
    proof
      assume "re_match (Plus p # ns) False xs"
      then obtain u v where "xs = u @ v" "list_all p u" "re_match ns False v"
        using Cons.IH by blast
      with px have "x # xs = (x # u) @ v \<and> x # u \<noteq> [] \<and> list_all p (x # u) \<and> re_match ns False v"
        by simp
      then show ?thesis by blast
    next
      assume "re_match ns False xs"
      with px have "x # xs = [x] @ xs \<and> [x] \<noteq> [] \<and> list_all p [x] \<and> re_match ns False xs"
        by simp
      then show ?thesis by blast
    qed
  next
    assume "\<exists>u v. x # xs = u @ v \<and> u \<noteq> [] \<and> list_all p u \<and> re_match ns False v"
    then obtain u v where uv: "x # xs = u @ v" "u \<noteq> []" "list_all p u" "re_match ns False v"
      by blast
    then obtain u' where u: "u = x # u'" and xs: "xs = u' @ v"
      by (cases u) auto
    show "re_match (Plus p # ns) b (x # xs)"
    proof (cases "u' = []")
      case True
      with uv u xs show ?thesis by simp
    next
      case False
      with uv u xs have "re_match (Plus p # ns) False xs"
        using Cons.IH by auto
      with uv u show ?thesis by simp
    qed
  qed
qed

lemma re_match_Lit:
  "re_match (Lit c # ns) b s \<longleftrightarrow> (\<exists>v. s = c # v \<and> re_match ns False v)"
  by (cases s) auto

lemma is_email_iff:
  "is_email s \<longleftrightarrow>
     (\<exists>l d r t. s = l @ [CHR ''@''] @ d @ [CHR ''.''] @ r @ t \<and> l \<noteq> [] \<and> d \<noteq> [] \<and> r \<noteq> [] \<and>
        list_all not_at_space l \<and> list_all not_at_space d \<and> list_all not_at_space r \<and>
        (t = [] \<or> t = [CHR 0x0A]))"
  unfolding is_email_def EMAIL_RE_def
  by (simp add: re_match_Plus re_match_Lit) blast

lemma is_email_characterised:
  "is_email s \<longleftrightarrow> email_shape s \<or> (\<exists>t. s = t @ [CHR 0x0A] \<and> email_shape t)"
  unfolding is_email_iff email_shape_def
  apply (rule iffI)
   apply (elim exE conjE disjE)
    apply (rule disjI1) apply force
   apply (rule disjI2) apply force
  apply (elim exE conjE disjE)
   apply force
  apply force
  done

lemma email_shape_last: "email_shape s \<Longrightarrow> s \<noteq> [] \<and> not_at_space (last s)"
  by (auto simp: email_shape_def list_all_iff)

text \<open>
  Claim C4 says that the validator accepts exactly the strings of that shape, with no
  trailing newline. The code accepts \<open>"a@b.c\n"\<close>, which is not of that shape: \<open>$\<close> also
  matches before a final newline (\<open>is_email_characterised\<close> is what the code accepts).
\<close>

theorem is_email_trailing_newline:
  "is_email (''a@b.c'' @ [CHR 0x0A]) \<and> \<not> email_shape (''a@b.c'' @ [CHR 0x0A])"
proof
  show "is_email (''a@b.c'' @ [CHR 0x0A])"
    by (simp add: is_email_def EMAIL_RE_def not_at_space_def py_isspace_def)
  show "\<not> email_shape (''a@b.c'' @ [CHR 0x0A])"
  proof
    assume "email_shape (''a@b.c'' @ [CHR 0x0A])"
    then have "not_at_space (last (''a@b.c'' @ [CHR 0x0A]))"
      by (rule email_shape_last [THEN conjunct2])
    then show False
      by (simp add: not_at_space_def py_isspace_def)
  qed
qed

section \<open>The response\<close>

lemma if_err_shape:
  assumes "(if es \<noteq> [] then Inr (err es) else m) = Inr r"
    and "\<And>es'. es' \<noteq> [] \<Longrightarrow> P (err es')"
    and "\<And>r'. m = Inr r' \<Longrightarrow> P r'"
  shows "P r"
  using assms by (cases "es = []") auto

lemma bind_exn_Inr: "bind_exn m f = Inr r \<longleftrightarrow> (\<exists>x. m = Inr x \<and> f x = Inr r)"
  by (cases m) (auto simp: bind_exn_def)

lemma ok_nonempty: "\<exists>d. d \<noteq> Map.empty \<and> ok msg (m(k \<mapsto> v)) = ok msg d"
  by (rule exI [of _ "m(k \<mapsto> v)"]) simp

lemma handle_user_signup_result:
  assumes "handle_user_signup ev = Inr r"
  shows "(\<exists>es. es \<noteq> [] \<and> r = err es) \<or> (\<exists>d. d \<noteq> Map.empty \<and> r = ok ''Signup processed'' d)"
  using assms unfolding handle_user_signup_def Let_def
  apply -
  apply (erule if_err_shape)
  subgoal by blast
  subgoal unfolding bind_exn_Inr using ok_nonempty by blast
  done

lemma handle_payment_result:
  assumes "handle_payment ev = Inr r"
  shows "(\<exists>es. es \<noteq> [] \<and> r = err es) \<or> (\<exists>d. d \<noteq> Map.empty \<and> r = ok ''Payment processed'' d)"
  using assms unfolding handle_payment_def Let_def
  apply -
  apply (subst (asm) bind_exn_Inr)
  apply (elim exE conjE)
  apply (erule if_err_shape)
  subgoal by blast
  subgoal unfolding bind_exn_Inr using ok_nonempty by blast
  done

lemma handle_file_upload_result:
  assumes "handle_file_upload ev = Inr r"
  shows "(\<exists>es. es \<noteq> [] \<and> r = err es) \<or> (\<exists>d. d \<noteq> Map.empty \<and> r = ok ''Upload processed'' d)"
  using assms unfolding handle_file_upload_def Let_def
  apply -
  apply (erule if_err_shape)
  subgoal by blast
  subgoal unfolding bind_exn_Inr using ok_nonempty by blast
  done

lemma py_in_iff: "py_in a S \<longleftrightarrow> (\<exists>s. a = AStr s \<and> s \<in> S)"
  by (cases a) auto

lemma map_sum_Some: "map_sum id Some m = Inr (Some r) \<longleftrightarrow> m = Inr r"
  by (cases m) auto

lemma handler_cases:
  assumes "handler event context = Inr (Some r)"
  shows "(\<exists>es. es \<noteq> [] \<and> r = err es) \<or>
         (\<exists>ev d. event = PDict ev \<and> d \<noteq> Map.empty \<and>
            ((ev ''type'' = Some (Atom (AStr ''USER_SIGNUP'')) \<and> r = ok ''Signup processed'' d) \<or>
             (ev ''type'' = Some (Atom (AStr ''PAYMENT'')) \<and> r = ok ''Payment processed'' d) \<or>
             (ev ''type'' = Some (Atom (AStr ''FILE_UPLOAD'')) \<and> r = ok ''Upload processed'' d)))"
proof (cases event)
  case (PDict ev)
  show ?thesis
  proof (cases "ev ''type''")
    case None
    with PDict assms show ?thesis by (auto simp: handler_def)
  next
    case (Some event_type)
    show ?thesis
    proof (cases event_type)
      case (Atom a)
      show ?thesis
      proof (cases "py_in a ALLOWED_TYPES")
        case False
        with PDict Some Atom assms show ?thesis by (auto simp: handler_def bind_exn_Inr)
      next
        case True
        then consider "a = AStr ''USER_SIGNUP''" | "a = AStr ''PAYMENT''" | "a = AStr ''FILE_UPLOAD''"
          by (auto simp: py_in_iff ALLOWED_TYPES_def)
        then show ?thesis
        proof cases
          case 1
          with PDict Some Atom assms True have "handle_user_signup ev = Inr r"
            by (simp add: handler_def map_sum_Some)
          with handle_user_signup_result [of ev r] PDict Some Atom 1 show ?thesis by blast
        next
          case 2
          with PDict Some Atom assms True have "handle_payment ev = Inr r"
            by (simp add: handler_def map_sum_Some)
          with handle_payment_result [of ev r] PDict Some Atom 2 show ?thesis by blast
        next
          case 3
          with PDict Some Atom assms True have "handle_file_upload ev = Inr r"
            by (simp add: handler_def map_sum_Some)
          with handle_file_upload_result [of ev r] PDict Some Atom 3 show ?thesis by blast
        qed
      qed
    next
      case (PList xs)
      with PDict Some assms show ?thesis by (simp add: handler_def)
    next
      case (PDict m)
      with \<open>event = PDict ev\<close> Some assms show ?thesis by (simp add: handler_def)
    qed
  qed
next
  case (Atom a)
  with assms show ?thesis by (auto simp: handler_def)
next
  case (PList xs)
  with assms show ?thesis by (auto simp: handler_def)
qed

lemma signup_ok_eval:
  "handler (PDict [''type'' \<mapsto> Atom (AStr ''USER_SIGNUP''), ''user_id'' \<mapsto> Atom (AInt 7),
                   ''email'' \<mapsto> Atom (AStr ''Ann@Example.org''), ''plan'' \<mapsto> Atom (AStr ''PRO'')])
           (Atom ANone)
   = Inr (Some (ok ''Signup processed''
        [''user_id'' \<mapsto> Atom (AInt 7), ''email'' \<mapsto> Atom (AStr ''ann@example.org''),
         ''plan'' \<mapsto> Atom (AStr ''pro''),
         ''welcome_email_subject'' \<mapsto> Atom (AStr ''Welcome to the pro plan!'')]))"
  by (simp add: handler_def ALLOWED_TYPES_def handle_user_signup_def get_def ALLOWED_PLANS_def
        bind_exn_def email_eval str_eval)

lemma signup_err_eval:
  "handler (PDict [''type'' \<mapsto> Atom (AStr ''USER_SIGNUP''),
                   ''email'' \<mapsto> Atom (AStr ''bad''), ''plan'' \<mapsto> Atom (AStr ''ultra'')])
           (Atom ANone)
   = Inr (Some (err [''Missing required field: '' @ quoted ''user_id'',
         ''Invalid email format: '' @ quoted ''bad'',
         ''Invalid plan: '' @ quoted ''ultra'' @ ''. Allowed: edu, free, pro'']))"
  by (simp add: handler_def ALLOWED_TYPES_def handle_user_signup_def get_def ALLOWED_PLANS_def
        bind_exn_def email_eval str_eval sorted_ALLOWED_PLANS [unfolded ALLOWED_PLANS_def])

text \<open>
  Claim C1: every response the entry point returns has status \<open>ok\<close> or \<open>error\<close>; with \<open>ok\<close>
  it has no errors and its data is a dict that is not empty; with \<open>error\<close> it has at least
  one error and its data is \<open>None\<close>. So no response has errors and status \<open>ok\<close>.
\<close>

theorem result_invariant:
  assumes "handler event context = Inr (Some r)"
  shows "(status r = ''ok'' \<or> status r = ''error'') \<and>
         (status r = ''ok'' \<longrightarrow> errors r = [] \<and> (\<exists>d. data r = PDict d \<and> dom d \<noteq> {})) \<and>
         (status r = ''error'' \<longrightarrow> errors r \<noteq> [] \<and> data r = Atom ANone) \<and>
         \<not> (errors r \<noteq> [] \<and> status r = ''ok'')"
  using handler_cases [OF assms] by (auto simp: err_def ok_def)

theorem result_invariant_witness:
  "handler (PDict [''type'' \<mapsto> Atom (AStr ''USER_SIGNUP''), ''user_id'' \<mapsto> Atom (AInt 7),
                   ''email'' \<mapsto> Atom (AStr ''Ann@Example.org''), ''plan'' \<mapsto> Atom (AStr ''PRO'')])
           (Atom ANone)
     = Inr (Some (ok ''Signup processed''
        [''user_id'' \<mapsto> Atom (AInt 7), ''email'' \<mapsto> Atom (AStr ''ann@example.org''),
         ''plan'' \<mapsto> Atom (AStr ''pro''),
         ''welcome_email_subject'' \<mapsto> Atom (AStr ''Welcome to the pro plan!'')])) \<and>
   errors (ok ''Signup processed''
        [''user_id'' \<mapsto> Atom (AInt 7), ''email'' \<mapsto> Atom (AStr ''ann@example.org''),
         ''plan'' \<mapsto> Atom (AStr ''pro''),
         ''welcome_email_subject'' \<mapsto> Atom (AStr ''Welcome to the pro plan!'')]) = [] \<and>
   errors (err [''Missing required field: '' @ quoted ''user_id'',
         ''Invalid email format: '' @ quoted ''bad'',
         ''Invalid plan: '' @ quoted ''ultra'' @ ''. Allowed: edu, free, pro'']) \<noteq> [] \<and>
   data (err [''Missing required field: '' @ quoted ''user_id'',
         ''Invalid email format: '' @ quoted ''bad'',
         ''Invalid plan: '' @ quoted ''ultra'' @ ''. Allowed: edu, free, pro'']) = Atom ANone"
  using result_invariant [OF signup_ok_eval] result_invariant [OF signup_err_eval] signup_ok_eval
  by (simp add: ok_def err_def)

text \<open>
  Claim C9: a response with status \<open>error\<close> has the message \<open>Event rejected\<close>, whether the
  entry point or a handler rejected the event; a response with status \<open>ok\<close> has the message
  of the handler of the event's type.
\<close>

theorem result_message:
  assumes "handler event context = Inr (Some r)"
  shows "(status r = ''error'' \<longrightarrow> message r = ''Event rejected'') \<and>
         (status r = ''ok'' \<longrightarrow>
            (\<exists>ev. event = PDict ev \<and>
               ((ev ''type'' = Some (Atom (AStr ''USER_SIGNUP'')) \<and> message r = ''Signup processed'') \<or>
                (ev ''type'' = Some (Atom (AStr ''PAYMENT'')) \<and> message r = ''Payment processed'') \<or>
                (ev ''type'' = Some (Atom (AStr ''FILE_UPLOAD'')) \<and> message r = ''Upload processed''))))"
  using handler_cases [OF assms] by (auto simp: err_def ok_def)

theorem result_message_witness:
  "message (err [''Missing required field: '' @ quoted ''user_id'',
         ''Invalid email format: '' @ quoted ''bad'',
         ''Invalid plan: '' @ quoted ''ultra'' @ ''. Allowed: edu, free, pro'']) = ''Event rejected'' \<and>
   message (ok ''Signup processed''
        [''user_id'' \<mapsto> Atom (AInt 7), ''email'' \<mapsto> Atom (AStr ''ann@example.org''),
         ''plan'' \<mapsto> Atom (AStr ''pro''),
         ''welcome_email_subject'' \<mapsto> Atom (AStr ''Welcome to the pro plan!'')]) = ''Signup processed''"
  using result_message [OF signup_err_eval] result_message [OF signup_ok_eval]
  by (simp add: ok_def err_def)

text \<open>
  Claim C8: the outcome of the entry point depends on the event only; any two contexts,
  \<open>None\<close> included, give the same outcome, and so do two calls on the same event.
\<close>

theorem handler_ignores_context: "handler event c1 = handler event c2"
  by (simp add: handler_def)

lemma map_sum_not_None: "map_sum id Some m \<noteq> Inr None"
  by (cases m) auto

lemma handler_never_returns_None: "handler event context \<noteq> Inr None"
proof (cases event)
  case (PDict ev)
  show ?thesis
  proof (cases "ev ''type''")
    case None
    with PDict show ?thesis by (simp add: handler_def)
  next
    case (Some event_type)
    show ?thesis
    proof (cases event_type)
      case (Atom a)
      show ?thesis
      proof (cases "py_in a ALLOWED_TYPES")
        case False
        with PDict Some Atom show ?thesis by (cases "py_str a") (simp_all add: handler_def bind_exn_def)
      next
        case True
        then consider "a = AStr ''USER_SIGNUP''" | "a = AStr ''PAYMENT''" | "a = AStr ''FILE_UPLOAD''"
          by (auto simp: py_in_iff ALLOWED_TYPES_def)
        then show ?thesis
          using PDict Some Atom True by cases (simp_all add: handler_def map_sum_not_None)
      qed
    next
      case (PList xs)
      with PDict Some show ?thesis by (simp add: handler_def)
    next
      case (PDict m)
      with \<open>event = PDict ev\<close> Some show ?thesis by (simp add: handler_def)
    qed
  qed
next
  case (Atom a)
  then show ?thesis by (simp add: handler_def)
next
  case (PList xs)
  then show ?thesis by (simp add: handler_def)
qed

section \<open>The handlers, field by field\<close>

lemma user_id_step:
  "(if v = Atom ANone then E @ [''Missing required field: '' @ quoted ''user_id'']
    else if \<not> isinstance_int v then E @ [quoted ''user_id'' @ '' must be an integer'']
    else E) = E @ user_id_checks v"
  by (simp add: user_id_checks_def)

lemma email_step:
  "(case v of
      Atom ANone \<Rightarrow> E @ [''Missing required field: '' @ quoted ''email'']
    | Atom (AStr s) \<Rightarrow> if \<not> is_email s then E @ [''Invalid email format: '' @ quoted s] else E
    | _ \<Rightarrow> E @ [quoted ''email'' @ '' must be a string'']) = E @ email_checks v"
  by (simp add: email_checks_def split: pyval.splits atom.splits)

lemma plan_step:
  "(case v of
      Atom ANone \<Rightarrow> E @ [''Missing required field: '' @ quoted ''plan'']
    | Atom (AStr s) \<Rightarrow>
        if py_lower s \<notin> ALLOWED_PLANS
        then E @ [''Invalid plan: '' @ quoted s @ ''. Allowed: ''
                        @ join '', '' (sorted_list_of_set ALLOWED_PLANS)]
        else E
    | _ \<Rightarrow> E @ [quoted ''plan'' @ '' must be a string'']) = E @ plan_checks v"
  by (simp add: plan_checks_def sorted_ALLOWED_PLANS ALLOWED_PLANS_def split: pyval.splits atom.splits)

lemma handle_user_signup_checks:
  "handle_user_signup ev =
     (if user_id_checks (get ev ''user_id'') @ email_checks (get ev ''email'')
           @ plan_checks (get ev ''plan'') \<noteq> []
      then Inr (err (user_id_checks (get ev ''user_id'') @ email_checks (get ev ''email'')
           @ plan_checks (get ev ''plan'')))
      else
        bind_exn (str_lower (get ev ''email'')) (\<lambda>normalized_email.
        bind_exn (str_lower (get ev ''plan'')) (\<lambda>normalized_plan.
          Inr (ok ''Signup processed''
            [''user_id'' \<mapsto> get ev ''user_id'',
             ''email'' \<mapsto> Atom (AStr normalized_email),
             ''plan'' \<mapsto> Atom (AStr normalized_plan),
             ''welcome_email_subject'' \<mapsto>
               Atom (AStr (''Welcome to the '' @ normalized_plan @ '' plan!''))]))))"
  unfolding handle_user_signup_def Let_def user_id_step email_step plan_step
  by simp

lemma required_str_step:
  "(if v = Atom ANone then E @ [''Missing required field: '' @ quoted name]
    else if \<not> isinstance_str v then E @ [quoted name @ '' must be a string'']
    else E) = E @ required_str name v"
  by (simp add: required_str_def)

lemma amount_step:
  "(case v of
      Atom ANone \<Rightarrow> Inr (E @ [''Missing required field: '' @ quoted ''amount''])
    | Atom (AInt n) \<Rightarrow>
        if n \<le> 0
        then bind_exn (py_str (AInt n)) (\<lambda>s.
               Inr (E @ [quoted ''amount'' @ '' must be greater than 0, got '' @ s]))
        else Inr E
    | Atom (ABool b) \<Rightarrow>
        if of_bool b \<le> (0 :: int)
        then bind_exn (py_str (ABool b)) (\<lambda>s.
               Inr (E @ [quoted ''amount'' @ '' must be greater than 0, got '' @ s]))
        else Inr E
    | Atom (AFloat x) \<Rightarrow>
        if float_le_zero x
        then bind_exn (py_str (AFloat x)) (\<lambda>s.
               Inr (E @ [quoted ''amount'' @ '' must be greater than 0, got '' @ s]))
        else Inr E
    | _ \<Rightarrow> Inr (E @ [quoted ''amount'' @ '' must be a number'']))
   = bind_exn (amount_checks v) (\<lambda>amount_messages. Inr (E @ amount_messages))"
  by (simp add: amount_checks_def bind_exn_def split: pyval.splits atom.splits sum.splits)

lemma currency_step:
  "(case v of
      Atom ANone \<Rightarrow> E @ [''Missing required field: '' @ quoted ''currency'']
    | Atom (AStr s) \<Rightarrow>
        if py_upper s \<notin> codes ` ALLOWED_CURRENCIES
        then E @ [''Invalid currency: '' @ quoted s @ ''. Allowed: ''
                        @ join '', '' (sorted_list_of_set ALLOWED_CURRENCIES)]
        else E
    | _ \<Rightarrow> E @ [quoted ''currency'' @ '' must be a string'']) = E @ currency_checks v"
  by (simp add: currency_checks_def sorted_ALLOWED_CURRENCIES ALLOWED_CURRENCIES_def
        split: pyval.splits atom.splits)

lemma size_bytes_step:
  "(case v of
      Atom ANone \<Rightarrow> E @ [''Missing required field: '' @ quoted ''size_bytes'']
    | Atom (AInt n) \<Rightarrow>
        if n < 0 then E @ [quoted ''size_bytes'' @ '' must be >= 0''] else E
    | Atom (ABool b) \<Rightarrow>
        if of_bool b < (0 :: int) then E @ [quoted ''size_bytes'' @ '' must be >= 0'']
        else E
    | _ \<Rightarrow> E @ [quoted ''size_bytes'' @ '' must be an integer'']) = E @ size_bytes_checks v"
  by (simp add: size_bytes_checks_def split: pyval.splits atom.splits)

lemma uploader_step:
  "(case v of
      Atom ANone \<Rightarrow> E @ [''Missing required field: '' @ quoted ''uploader'']
    | Atom (AStr s) \<Rightarrow>
        if \<not> is_email s then E @ [''Invalid uploader email: '' @ quoted s] else E
    | _ \<Rightarrow> E @ [quoted ''uploader'' @ '' must be a string'']) = E @ uploader_checks v"
  by (simp add: uploader_checks_def split: pyval.splits atom.splits)

lemma handle_payment_checks:
  "handle_payment ev =
     bind_exn (payment_checks ev) (\<lambda>es.
       if es \<noteq> [] then Inr (err es)
       else
         bind_exn (py_float (get ev ''amount'')) (\<lambda>x.
         bind_exn (str_upper (get ev ''currency'')) (\<lambda>normalized_currency.
           Inr (ok ''Payment processed''
                 [''payment_id'' \<mapsto> get ev ''payment_id'',
                  ''user_id'' \<mapsto> get ev ''user_id'',
                  ''amount'' \<mapsto> Atom (AFloat (round3 x)),
                  ''currency'' \<mapsto> Atom (AStr (str_of_codes normalized_currency)),
                  ''fee'' \<mapsto> Atom (AFloat (round3 (fmul FLOAT_0_02 (round3 x)))),
                  ''net_amount'' \<mapsto>
                    Atom (AFloat (round3 (fsub (round3 x) (round3 (fmul FLOAT_0_02 (round3 x))))))]))))"
  unfolding handle_payment_def Let_def required_str_step user_id_step amount_step currency_step
    payment_checks_def
  by (cases "amount_checks (get ev ''amount'')") (simp_all add: bind_exn_def)

lemma handle_file_upload_checks:
  "handle_file_upload ev =
     (if file_upload_checks ev \<noteq> [] then Inr (err (file_upload_checks ev))
      else
        bind_exn (str_strip (get ev ''file_name'')) (\<lambda>normalized_file_name.
        bind_exn (str_lower (get ev ''bucket'')) (\<lambda>normalized_bucket.
        bind_exn (str_lower (get ev ''uploader'')) (\<lambda>normalized_uploader.
        bind_exn
          (bind_exn (py_lt (get ev ''size_bytes'') 1000000) (\<lambda>small.
             if small then Inr ''STANDARD''
             else bind_exn (py_lt (get ev ''size_bytes'') 50000000) (\<lambda>medium.
               if medium then Inr ''STANDARD_IA'' else Inr ''GLACIER'')))
          (\<lambda>storage_class.
             Inr (ok ''Upload processed''
               [''file_name'' \<mapsto> Atom (AStr normalized_file_name),
                ''size_bytes'' \<mapsto> get ev ''size_bytes'',
                ''bucket'' \<mapsto> Atom (AStr normalized_bucket),
                ''uploader'' \<mapsto> Atom (AStr normalized_uploader),
                ''storage_class'' \<mapsto> Atom (AStr storage_class)]))))))"
  unfolding handle_file_upload_def Let_def required_str_step size_bytes_step uploader_step
    file_upload_checks_def
  by simp

lemma handler_USER_SIGNUP:
  "ev ''type'' = Some (Atom (AStr ''USER_SIGNUP'')) \<Longrightarrow>
   handler (PDict ev) c = map_sum id Some (handle_user_signup ev)"
  by (simp add: handler_def ALLOWED_TYPES_def)

lemma handler_PAYMENT:
  "ev ''type'' = Some (Atom (AStr ''PAYMENT'')) \<Longrightarrow>
   handler (PDict ev) c = map_sum id Some (handle_payment ev)"
  by (simp add: handler_def ALLOWED_TYPES_def)

lemma handler_FILE_UPLOAD:
  "ev ''type'' = Some (Atom (AStr ''FILE_UPLOAD'')) \<Longrightarrow>
   handler (PDict ev) c = map_sum id Some (handle_file_upload ev)"
  by (simp add: handler_def ALLOWED_TYPES_def)

lemma email_checks_Nil: "email_checks v = [] \<Longrightarrow> \<exists>s. v = Atom (AStr s)"
  by (auto simp: email_checks_def split: pyval.splits atom.splits if_splits)

lemma plan_checks_Nil: "plan_checks v = [] \<Longrightarrow> \<exists>s. v = Atom (AStr s)"
  by (auto simp: plan_checks_def split: pyval.splits atom.splits if_splits)

lemma handle_user_signup_total:
  "\<exists>r. handle_user_signup ev = Inr r \<and>
     (let es = user_id_checks (get ev ''user_id'') @ email_checks (get ev ''email'')
               @ plan_checks (get ev ''plan'')
      in (es \<noteq> [] \<longrightarrow> r = err es) \<and> (es = [] \<longrightarrow> status r = ''ok'' \<and> errors r = []))"
proof -
  define es where "es = user_id_checks (get ev ''user_id'') @ email_checks (get ev ''email'')
               @ plan_checks (get ev ''plan'')"
  have "\<exists>r. handle_user_signup ev = Inr r \<and>
          (es \<noteq> [] \<longrightarrow> r = err es) \<and> (es = [] \<longrightarrow> status r = ''ok'' \<and> errors r = [])"
  proof (cases "es = []")
    case True
    then obtain e p where "get ev ''email'' = Atom (AStr e)" "get ev ''plan'' = Atom (AStr p)"
      unfolding es_def using email_checks_Nil plan_checks_Nil by fastforce
    with True show ?thesis
      unfolding handle_user_signup_checks es_def [symmetric]
      by (simp add: bind_exn_def ok_def)
  next
    case False
    then show ?thesis
      unfolding handle_user_signup_checks es_def [symmetric] by simp
  qed
  then show ?thesis
    unfolding es_def Let_def .
qed

text \<open>
  Claim C5: a signup event with no \<open>user_id\<close>, the email \<open>bad\<close> and the plan \<open>ultra\<close> is
  rejected with exactly three errors, about the user id, the email and the plan, in
  that order. For every signup event the errors are the messages of the user id checks,
  then those of the email checks, then those of the plan checks: every field is checked,
  and the event is rejected when any message was produced.
\<close>

theorem signup_errors_in_order:
  assumes "ev ''type'' = Some (Atom (AStr ''USER_SIGNUP''))"
  shows "(ev ''user_id'' = None \<and> ev ''email'' = Some (Atom (AStr ''bad'')) \<and>
          ev ''plan'' = Some (Atom (AStr ''ultra'')) \<longrightarrow>
            handler (PDict ev) c =
              Inr (Some (err [''Missing required field: '' @ quoted ''user_id'',
                              ''Invalid email format: '' @ quoted ''bad'',
                              ''Invalid plan: '' @ quoted ''ultra'' @ ''. Allowed: edu, free, pro'']))) \<and>
         (\<exists>r. handler (PDict ev) c = Inr (Some r) \<and>
            (let es = user_id_checks (get ev ''user_id'') @ email_checks (get ev ''email'')
                      @ plan_checks (get ev ''plan'')
             in (es \<noteq> [] \<longrightarrow> r = err es) \<and> (es = [] \<longrightarrow> status r = ''ok'' \<and> errors r = [])))"
proof
  show "ev ''user_id'' = None \<and> ev ''email'' = Some (Atom (AStr ''bad'')) \<and>
          ev ''plan'' = Some (Atom (AStr ''ultra'')) \<longrightarrow>
            handler (PDict ev) c =
              Inr (Some (err [''Missing required field: '' @ quoted ''user_id'',
                              ''Invalid email format: '' @ quoted ''bad'',
                              ''Invalid plan: '' @ quoted ''ultra'' @ ''. Allowed: edu, free, pro'']))"
    by (simp add: handler_USER_SIGNUP [of ev c, OF assms] handle_user_signup_checks get_def
          user_id_checks_def email_checks_def plan_checks_def email_eval str_eval)
  from handle_user_signup_total [of ev]
  show "\<exists>r. handler (PDict ev) c = Inr (Some r) \<and>
            (let es = user_id_checks (get ev ''user_id'') @ email_checks (get ev ''email'')
                      @ plan_checks (get ev ''plan'')
             in (es \<noteq> [] \<longrightarrow> r = err es) \<and> (es = [] \<longrightarrow> status r = ''ok'' \<and> errors r = []))"
    unfolding handler_USER_SIGNUP [of ev c, OF assms] by (auto simp: Let_def)
qed

theorem signup_errors_in_order_witness:
  "handler (PDict [''type'' \<mapsto> Atom (AStr ''USER_SIGNUP''),
                   ''email'' \<mapsto> Atom (AStr ''bad''), ''plan'' \<mapsto> Atom (AStr ''ultra'')])
           (Atom ANone)
   = Inr (Some (err [''Missing required field: '' @ quoted ''user_id'',
         ''Invalid email format: '' @ quoted ''bad'',
         ''Invalid plan: '' @ quoted ''ultra'' @ ''. Allowed: edu, free, pro'']))"
  using signup_errors_in_order
    [of "[''type'' \<mapsto> Atom (AStr ''USER_SIGNUP''),
          ''email'' \<mapsto> Atom (AStr ''bad''), ''plan'' \<mapsto> Atom (AStr ''ultra'')]" "Atom ANone"]
  by simp

text \<open>
  Claim C6 says that every dict whose \<open>type\<close> is not one of the three allowed types is
  rejected with one error. The code does so for every hashable value that \<open>str\<close> can write
  (\<open>unknown_type_single_error\<close> below), but on the event \<open>{"type": []}\<close> the membership
  test raises TypeError and no response is returned.
\<close>

theorem unhashable_type_raises:
  "handler (PDict [''type'' \<mapsto> PList []]) (Atom ANone) = Inl TypeError"
  by (simp add: handler_def)

lemma unknown_type_single_error:
  assumes "ev ''type'' = Some (Atom a)" and "\<not> py_in a ALLOWED_TYPES" and "py_str a = Inr s"
  shows "handler (PDict ev) c =
           Inr (Some (err [''Unknown event type: '' @ quoted s
                           @ ''. Allowed: FILE_UPLOAD, PAYMENT, USER_SIGNUP'']))"
  using assms by (simp add: handler_def sorted_ALLOWED_TYPES bind_exn_def)

section \<open>Amounts that are not positive\<close>

lemma int_str_huge: "10 ^ INT_MAX_STR_DIGITS \<le> \<bar>i\<bar> \<Longrightarrow> int_str i = Inl ValueError"
  unfolding int_str_def by (rule if_P)

lemma int_str_within:
  "\<bar>i\<bar> < 10 ^ INT_MAX_STR_DIGITS \<Longrightarrow>
   int_str i = Inr (if i < 0 then CHR ''-'' # digits (nat (- i)) else digits (nat i))"
  unfolding int_str_def by (rule if_not_P) (simp only: not_le)

lemma ten_le_limit: "(10 :: int) \<le> 10 ^ INT_MAX_STR_DIGITS"
proof -
  have "(10 :: int) ^ 1 \<le> 10 ^ INT_MAX_STR_DIGITS"
    by (rule power_increasing) (simp_all add: INT_MAX_STR_DIGITS_def)
  then show ?thesis by (simp only: power_one_right)
qed

lemma amount_checks_nonpositive:
  assumes "(\<exists>n. a = AInt n \<and> n \<le> 0 \<and> - (10 ^ INT_MAX_STR_DIGITS) < n) \<or>
           (\<exists>x. a = AFloat x \<and> float_le_zero x) \<or> a = ABool False"
  shows "\<exists>s. py_str a = Inr s \<and>
           amount_checks (Atom a) = Inr [quoted ''amount'' @ '' must be greater than 0, got '' @ s]"
  using assms
proof (elim disjE exE conjE)
  fix n assume a: "a = AInt n" and n: "n \<le> 0" "- (10 ^ INT_MAX_STR_DIGITS) < n"
  then have "\<bar>n\<bar> < 10 ^ INT_MAX_STR_DIGITS" by (simp only: abs_less_iff) linarith
  from int_str_within [OF this] a n(1) show ?thesis
    by (simp add: amount_checks_def bind_exn_def)
next
  fix x assume "a = AFloat x" "float_le_zero x"
  then show ?thesis by (simp add: amount_checks_def)
next
  assume "a = ABool False"
  then show ?thesis by (simp add: amount_checks_def)
qed

text \<open>
  Claim C7 says that every payment event whose amount is a number that is zero or
  negative is rejected with the message that the amount must be greater than 0, ending
  with the amount. Writing the amount into the message raises ValueError for an \<open>int\<close> of
  more than 4300 digits, and then no response is returned:
\<close>

theorem huge_nonpositive_amount_raises:
  "handler (PDict [''type'' \<mapsto> Atom (AStr ''PAYMENT''), ''payment_id'' \<mapsto> Atom (AStr ''p1''),
                   ''user_id'' \<mapsto> Atom (AInt 1),
                   ''amount'' \<mapsto> Atom (AInt (- (10 ^ INT_MAX_STR_DIGITS))),
                   ''currency'' \<mapsto> Atom (AStr ''USD'')]) (Atom ANone)
   = Inl ValueError"
proof -
  have "int_str (- (10 ^ INT_MAX_STR_DIGITS)) = Inl ValueError"
    by (rule int_str_huge) simp
  moreover have "\<not> (0 :: int) < - (10 ^ INT_MAX_STR_DIGITS)"
    by simp
  ultimately show ?thesis
    by (simp add: handler_PAYMENT handle_payment_checks payment_checks_def get_def amount_checks_def
          bind_exn_def)
qed

text \<open>
  Claim C7, amended: a payment event whose amount is a \<open>float\<close> that is zero or negative,
  the \<open>bool\<close> \<open>False\<close>, or an \<open>int\<close> that is zero or negative and has at most 4300 digits is
  rejected, and its errors contain the message that the amount must be greater than 0,
  ending with the amount as \<open>str\<close> writes it.
\<close>

theorem nonpositive_amount_within_limit_rejected:
  assumes "ev ''type'' = Some (Atom (AStr ''PAYMENT''))"
    and "ev ''amount'' = Some (Atom a)"
    and "(\<exists>n. a = AInt n \<and> n \<le> 0 \<and> - (10 ^ INT_MAX_STR_DIGITS) < n) \<or>
         (\<exists>x. a = AFloat x \<and> float_le_zero x) \<or> a = ABool False"
  shows "\<exists>r s. handler (PDict ev) c = Inr (Some r) \<and> status r = ''error'' \<and>
           py_str a = Inr s \<and>
           quoted ''amount'' @ '' must be greater than 0, got '' @ s \<in> set (errors r)"
proof -
  from amount_checks_nonpositive [OF assms(3)] obtain s where s: "py_str a = Inr s"
    and c: "amount_checks (Atom a) = Inr [quoted ''amount'' @ '' must be greater than 0, got '' @ s]"
    by blast
  from assms(2) have "get ev ''amount'' = Atom a"
    by (simp add: get_def)
  with c have "\<exists>r. handler (PDict ev) c = Inr (Some r) \<and> status r = ''error'' \<and>
           quoted ''amount'' @ '' must be greater than 0, got '' @ s \<in> set (errors r)"
    by (simp add: handler_PAYMENT [of ev c, OF assms(1)] handle_payment_checks payment_checks_def
          bind_exn_def err_def)
  with s show ?thesis by blast
qed

theorem nonpositive_amount_within_limit_rejected_witness:
  "(\<exists>r. handler (PDict [''type'' \<mapsto> Atom (AStr ''PAYMENT''), ''payment_id'' \<mapsto> Atom (AStr ''p1''),
             ''user_id'' \<mapsto> Atom (AInt 1), ''amount'' \<mapsto> Atom (AInt (- 5)),
             ''currency'' \<mapsto> Atom (AStr ''USD'')]) (Atom ANone) = Inr (Some r) \<and>
        status r = ''error'' \<and>
        quoted ''amount'' @ '' must be greater than 0, got -5'' \<in> set (errors r)) \<and>
   (\<exists>r. handler (PDict [''type'' \<mapsto> Atom (AStr ''PAYMENT''),
             ''amount'' \<mapsto> Atom (AFloat 0)]) (Atom ANone) = Inr (Some r) \<and>
        status r = ''error'' \<and>
        quoted ''amount'' @ '' must be greater than 0, got 0.0'' \<in> set (errors r))"
proof -
  have five: "- (10 ^ INT_MAX_STR_DIGITS) < (- 5 :: int)"
    using ten_le_limit by linarith
  then have "\<bar>- 5 :: int\<bar> < 10 ^ INT_MAX_STR_DIGITS"
    using ten_le_limit by linarith
  from int_str_within [OF this] have s5: "py_str (AInt (- 5)) = Inr ''-5''"
    by (simp add: digits.simps char_of_def bit_0)
  have s0: "py_str (AFloat 0) = Inr ''0.0''"
    by (simp add: float_repr_def is_nan_def is_inf_def fsign_def fmag_def fexp_def ffrac_def
          mant_def INFBITS_def)
  have z: "float_le_zero 0"
    by (simp add: float_le_zero_def is_nan_def fsign_def fmag_def INFBITS_def)
  from nonpositive_amount_within_limit_rejected
    [of "[''type'' \<mapsto> Atom (AStr ''PAYMENT''), ''payment_id'' \<mapsto> Atom (AStr ''p1''),
             ''user_id'' \<mapsto> Atom (AInt 1), ''amount'' \<mapsto> Atom (AInt (- 5)),
             ''currency'' \<mapsto> Atom (AStr ''USD'')]" "AInt (- 5)" "Atom ANone"] five s5
  have a: "\<exists>r. handler (PDict [''type'' \<mapsto> Atom (AStr ''PAYMENT''), ''payment_id'' \<mapsto> Atom (AStr ''p1''),
             ''user_id'' \<mapsto> Atom (AInt 1), ''amount'' \<mapsto> Atom (AInt (- 5)),
             ''currency'' \<mapsto> Atom (AStr ''USD'')]) (Atom ANone) = Inr (Some r) \<and>
        status r = ''error'' \<and>
        quoted ''amount'' @ '' must be greater than 0, got -5'' \<in> set (errors r)"
    by simp
  from nonpositive_amount_within_limit_rejected
    [of "[''type'' \<mapsto> Atom (AStr ''PAYMENT''), ''amount'' \<mapsto> Atom (AFloat 0)]" "AFloat 0" "Atom ANone"]
    z s0
  have b: "\<exists>r. handler (PDict [''type'' \<mapsto> Atom (AStr ''PAYMENT''),
             ''amount'' \<mapsto> Atom (AFloat 0)]) (Atom ANone) = Inr (Some r) \<and>
        status r = ''error'' \<and>
        quoted ''amount'' @ '' must be greater than 0, got 0.0'' \<in> set (errors r)"
    by simp
  from a b show ?thesis ..
qed

section \<open>The storage class of an upload\<close>

lemma required_str_Nil: "required_str name v = [] \<Longrightarrow> \<exists>s. v = Atom (AStr s)"
  by (cases v rule: isinstance_str.cases) (auto simp: required_str_def split: if_splits)

lemma uploader_checks_Nil: "uploader_checks v = [] \<Longrightarrow> \<exists>s. v = Atom (AStr s)"
  by (auto simp: uploader_checks_def split: pyval.splits atom.splits if_splits)

lemma size_bytes_checks_Nil:
  "size_bytes_checks v = [] \<Longrightarrow> (\<exists>n. v = Atom (AInt n) \<and> 0 \<le> n) \<or> (\<exists>b. v = Atom (ABool b))"
  by (auto simp: size_bytes_checks_def split: pyval.splits atom.splits if_splits)

lemma get_Some: "get ev k = v \<Longrightarrow> v \<noteq> Atom ANone \<Longrightarrow> ev k = Some v"
  by (auto simp: get_def split: option.splits)

lemma file_upload_storage_class:
  assumes "handle_file_upload ev = Inr r" and "status r = ''ok''"
  shows "\<exists>n d. (ev ''size_bytes'' = Some (Atom (AInt n)) \<or>
                (\<exists>b. ev ''size_bytes'' = Some (Atom (ABool b)) \<and> n = of_bool b)) \<and>
           0 \<le> n \<and> data r = PDict d \<and>
           d ''storage_class'' = Some (Atom (AStr
             (if n < 1000000 then ''STANDARD''
              else if n < 50000000 then ''STANDARD_IA'' else ''GLACIER'')))"
proof -
  have nil: "file_upload_checks ev = []"
  proof (rule ccontr)
    assume "file_upload_checks ev \<noteq> []"
    with assms(1) have "r = err (file_upload_checks ev)"
      unfolding handle_file_upload_checks by simp
    with assms(2) show False by (simp add: err_def)
  qed
  then have c: "required_str ''file_name'' (get ev ''file_name'') = []"
      "required_str ''bucket'' (get ev ''bucket'') = []" "uploader_checks (get ev ''uploader'') = []"
    unfolding file_upload_checks_def by simp_all
  from required_str_Nil [OF c(1)] obtain fn where fn: "get ev ''file_name'' = Atom (AStr fn)" ..
  from required_str_Nil [OF c(2)] obtain bk where bk: "get ev ''bucket'' = Atom (AStr bk)" ..
  from uploader_checks_Nil [OF c(3)] obtain u where u: "get ev ''uploader'' = Atom (AStr u)" ..
  note s = fn bk u
  from nil have "size_bytes_checks (get ev ''size_bytes'') = []"
    unfolding file_upload_checks_def by simp
  then consider n where "get ev ''size_bytes'' = Atom (AInt n)" "0 \<le> n"
    | b where "get ev ''size_bytes'' = Atom (ABool b)"
    using size_bytes_checks_Nil by blast
  then show ?thesis
  proof cases
    case 1
    from 1(1) have "ev ''size_bytes'' = Some (Atom (AInt n))"
      by (rule get_Some) simp
    moreover from assms(1) nil s 1 have
      "\<exists>d. data r = PDict d \<and> d ''storage_class'' = Some (Atom (AStr
             (if n < 1000000 then ''STANDARD''
              else if n < 50000000 then ''STANDARD_IA'' else ''GLACIER'')))"
      unfolding handle_file_upload_checks by (auto simp: bind_exn_def ok_def)
    ultimately show ?thesis using 1(2) by blast
  next
    case 2
    from 2 have "ev ''size_bytes'' = Some (Atom (ABool b))"
      by (rule get_Some) simp
    moreover from assms(1) nil s 2 have
      "\<exists>d. data r = PDict d \<and> d ''storage_class'' = Some (Atom (AStr
             (if (of_bool b :: int) < 1000000 then ''STANDARD''
              else if (of_bool b :: int) < 50000000 then ''STANDARD_IA'' else ''GLACIER'')))"
      unfolding handle_file_upload_checks by (cases b) (auto simp: bind_exn_def ok_def)
    moreover have "(0 :: int) \<le> of_bool b" by simp
    ultimately show ?thesis by blast
  qed
qed

lemma upload_eval:
  assumes "0 \<le> n"
  shows "handler (PDict [''type'' \<mapsto> Atom (AStr ''FILE_UPLOAD''),
                         ''file_name'' \<mapsto> Atom (AStr '' report.pdf ''),
                         ''size_bytes'' \<mapsto> Atom (AInt n),
                         ''bucket'' \<mapsto> Atom (AStr ''Media''),
                         ''uploader'' \<mapsto> Atom (AStr ''Ann@Example.org'')]) (Atom ANone)
         = Inr (Some (ok ''Upload processed''
             [''file_name'' \<mapsto> Atom (AStr ''report.pdf''),
              ''size_bytes'' \<mapsto> Atom (AInt n),
              ''bucket'' \<mapsto> Atom (AStr ''media''),
              ''uploader'' \<mapsto> Atom (AStr ''ann@example.org''),
              ''storage_class'' \<mapsto> Atom (AStr
                 (if n < 1000000 then ''STANDARD''
                  else if n < 50000000 then ''STANDARD_IA'' else ''GLACIER''))]))"
proof -
  let ?ev = "[''type'' \<mapsto> Atom (AStr ''FILE_UPLOAD''),
              ''file_name'' \<mapsto> Atom (AStr '' report.pdf ''),
              ''size_bytes'' \<mapsto> Atom (AInt n),
              ''bucket'' \<mapsto> Atom (AStr ''Media''),
              ''uploader'' \<mapsto> Atom (AStr ''Ann@Example.org'')]"
  have e: "is_email ''Ann@Example.org''"
    by (simp add: email_eval)
  have g: "get ?ev ''file_name'' = Atom (AStr '' report.pdf '')"
    "get ?ev ''size_bytes'' = Atom (AInt n)" "get ?ev ''bucket'' = Atom (AStr ''Media'')"
    "get ?ev ''uploader'' = Atom (AStr ''Ann@Example.org'')"
    by (simp_all add: get_def)
  from assms e have "file_upload_checks ?ev = []"
    unfolding file_upload_checks_def g
    by (simp add: required_str_def size_bytes_checks_def uploader_checks_def)
  moreover have "py_strip '' report.pdf '' = ''report.pdf''" "py_lower ''Media'' = ''media''"
    "py_lower ''Ann@Example.org'' = ''ann@example.org''"
    by (simp_all add: str_eval)
  ultimately have "handle_file_upload ?ev = Inr (ok ''Upload processed''
             [''file_name'' \<mapsto> Atom (AStr ''report.pdf''),
              ''size_bytes'' \<mapsto> Atom (AInt n),
              ''bucket'' \<mapsto> Atom (AStr ''media''),
              ''uploader'' \<mapsto> Atom (AStr ''ann@example.org''),
              ''storage_class'' \<mapsto> Atom (AStr
                 (if n < 1000000 then ''STANDARD''
                  else if n < 50000000 then ''STANDARD_IA'' else ''GLACIER''))])"
    unfolding handle_file_upload_checks g by (simp add: bind_exn_def)
  then show ?thesis
    by (simp add: handler_FILE_UPLOAD)
qed

text \<open>
  Claim C3: for every upload event that passes the checks, the storage class in the data
  depends on the size only: \<open>STANDARD\<close> below 1,000,000 bytes, \<open>STANDARD_IA\<close> from there and
  below 50,000,000 bytes, \<open>GLACIER\<close> from there on. The size is an \<open>int\<close> that is not
  negative (a \<open>bool\<close> counts as 0 or 1).
\<close>

theorem storage_class_bands:
  assumes "ev ''type'' = Some (Atom (AStr ''FILE_UPLOAD''))"
    and "handler (PDict ev) c = Inr (Some r)" and "status r = ''ok''"
  shows "\<exists>n d. (ev ''size_bytes'' = Some (Atom (AInt n)) \<or>
                (\<exists>b. ev ''size_bytes'' = Some (Atom (ABool b)) \<and> n = of_bool b)) \<and>
           0 \<le> n \<and> data r = PDict d \<and>
           (n < 1000000 \<longrightarrow> d ''storage_class'' = Some (Atom (AStr ''STANDARD''))) \<and>
           (1000000 \<le> n \<and> n < 50000000 \<longrightarrow>
              d ''storage_class'' = Some (Atom (AStr ''STANDARD_IA''))) \<and>
           (50000000 \<le> n \<longrightarrow> d ''storage_class'' = Some (Atom (AStr ''GLACIER'')))"
proof -
  from assms(1,2) have "handle_file_upload ev = Inr r"
    by (simp add: handler_FILE_UPLOAD map_sum_Some)
  from file_upload_storage_class [OF this assms(3)]
  obtain n d where
    "ev ''size_bytes'' = Some (Atom (AInt n)) \<or>
       (\<exists>b. ev ''size_bytes'' = Some (Atom (ABool b)) \<and> n = of_bool b)"
    "0 \<le> n" "data r = PDict d"
    "d ''storage_class'' = Some (Atom (AStr
             (if n < 1000000 then ''STANDARD''
              else if n < 50000000 then ''STANDARD_IA'' else ''GLACIER'')))"
    by blast
  then have "(ev ''size_bytes'' = Some (Atom (AInt n)) \<or>
                (\<exists>b. ev ''size_bytes'' = Some (Atom (ABool b)) \<and> n = of_bool b)) \<and>
           0 \<le> n \<and> data r = PDict d \<and>
           (n < 1000000 \<longrightarrow> d ''storage_class'' = Some (Atom (AStr ''STANDARD''))) \<and>
           (1000000 \<le> n \<and> n < 50000000 \<longrightarrow>
              d ''storage_class'' = Some (Atom (AStr ''STANDARD_IA''))) \<and>
           (50000000 \<le> n \<longrightarrow> d ''storage_class'' = Some (Atom (AStr ''GLACIER'')))"
    by simp
  then show ?thesis by blast
qed

theorem storage_class_bands_witness:
  "(\<exists>r d. handler (PDict [''type'' \<mapsto> Atom (AStr ''FILE_UPLOAD''),
                         ''file_name'' \<mapsto> Atom (AStr '' report.pdf ''),
                         ''size_bytes'' \<mapsto> Atom (AInt 999999),
                         ''bucket'' \<mapsto> Atom (AStr ''Media''),
                         ''uploader'' \<mapsto> Atom (AStr ''Ann@Example.org'')]) (Atom ANone)
            = Inr (Some r) \<and> data r = PDict d \<and>
          d ''storage_class'' = Some (Atom (AStr ''STANDARD''))) \<and>
   (\<exists>r d. handler (PDict [''type'' \<mapsto> Atom (AStr ''FILE_UPLOAD''),
                         ''file_name'' \<mapsto> Atom (AStr '' report.pdf ''),
                         ''size_bytes'' \<mapsto> Atom (AInt 1000000),
                         ''bucket'' \<mapsto> Atom (AStr ''Media''),
                         ''uploader'' \<mapsto> Atom (AStr ''Ann@Example.org'')]) (Atom ANone)
            = Inr (Some r) \<and> data r = PDict d \<and>
          d ''storage_class'' = Some (Atom (AStr ''STANDARD_IA''))) \<and>
   (\<exists>r d. handler (PDict [''type'' \<mapsto> Atom (AStr ''FILE_UPLOAD''),
                         ''file_name'' \<mapsto> Atom (AStr '' report.pdf ''),
                         ''size_bytes'' \<mapsto> Atom (AInt 50000000),
                         ''bucket'' \<mapsto> Atom (AStr ''Media''),
                         ''uploader'' \<mapsto> Atom (AStr ''Ann@Example.org'')]) (Atom ANone)
            = Inr (Some r) \<and> data r = PDict d \<and>
          d ''storage_class'' = Some (Atom (AStr ''GLACIER'')))"
proof -
  have bands: "\<exists>r d. handler (PDict [''type'' \<mapsto> Atom (AStr ''FILE_UPLOAD''),
                         ''file_name'' \<mapsto> Atom (AStr '' report.pdf ''),
                         ''size_bytes'' \<mapsto> Atom (AInt k),
                         ''bucket'' \<mapsto> Atom (AStr ''Media''),
                         ''uploader'' \<mapsto> Atom (AStr ''Ann@Example.org'')]) (Atom ANone)
            = Inr (Some r) \<and> data r = PDict d \<and>
          (k < 1000000 \<longrightarrow> d ''storage_class'' = Some (Atom (AStr ''STANDARD''))) \<and>
          (1000000 \<le> k \<and> k < 50000000 \<longrightarrow>
             d ''storage_class'' = Some (Atom (AStr ''STANDARD_IA''))) \<and>
          (50000000 \<le> k \<longrightarrow> d ''storage_class'' = Some (Atom (AStr ''GLACIER'')))"
    if k: "0 \<le> k" for k :: int
  proof -
    let ?ev = "[''type'' \<mapsto> Atom (AStr ''FILE_UPLOAD''),
                ''file_name'' \<mapsto> Atom (AStr '' report.pdf ''),
                ''size_bytes'' \<mapsto> Atom (AInt k),
                ''bucket'' \<mapsto> Atom (AStr ''Media''),
                ''uploader'' \<mapsto> Atom (AStr ''Ann@Example.org'')]"
    have t: "?ev ''type'' = Some (Atom (AStr ''FILE_UPLOAD''))" by simp
    note e = upload_eval [OF k]
    have st: "status (ok ''Upload processed''
             [''file_name'' \<mapsto> Atom (AStr ''report.pdf''),
              ''size_bytes'' \<mapsto> Atom (AInt k),
              ''bucket'' \<mapsto> Atom (AStr ''media''),
              ''uploader'' \<mapsto> Atom (AStr ''ann@example.org''),
              ''storage_class'' \<mapsto> Atom (AStr
                 (if k < 1000000 then ''STANDARD''
                  else if k < 50000000 then ''STANDARD_IA'' else ''GLACIER''))]) = ''ok''"
      by (simp add: ok_def)
    from storage_class_bands [of ?ev "Atom ANone", OF t e st]
    obtain n d where n: "?ev ''size_bytes'' = Some (Atom (AInt n)) \<or>
          (\<exists>b. ?ev ''size_bytes'' = Some (Atom (ABool b)) \<and> n = of_bool b)"
      and d: "data (ok ''Upload processed''
             [''file_name'' \<mapsto> Atom (AStr ''report.pdf''),
              ''size_bytes'' \<mapsto> Atom (AInt k),
              ''bucket'' \<mapsto> Atom (AStr ''media''),
              ''uploader'' \<mapsto> Atom (AStr ''ann@example.org''),
              ''storage_class'' \<mapsto> Atom (AStr
                 (if k < 1000000 then ''STANDARD''
                  else if k < 50000000 then ''STANDARD_IA'' else ''GLACIER''))]) = PDict d"
      and b: "n < 1000000 \<longrightarrow> d ''storage_class'' = Some (Atom (AStr ''STANDARD''))"
        "1000000 \<le> n \<and> n < 50000000 \<longrightarrow> d ''storage_class'' = Some (Atom (AStr ''STANDARD_IA''))"
        "50000000 \<le> n \<longrightarrow> d ''storage_class'' = Some (Atom (AStr ''GLACIER''))"
      by blast
    from n have "n = k" by simp
    with e d b show ?thesis by blast
  qed
  from bands [of 999999] bands [of 1000000] bands [of 50000000] show ?thesis
    by simp
qed

section \<open>A field that is null\<close>























section \<open>The amounts of a payment\<close>

lemma bitlen_upper: "n < 2 ^ bitlen n"
proof (induction n rule: bitlen.induct)
  case (1 n)
  show ?case
  proof (cases "n = 0")
    case True
    then show ?thesis by (simp add: bitlen.simps)
  next
    case False
    with 1 have "n div 2 < 2 ^ bitlen (n div 2)" by simp
    then have "n < 2 * 2 ^ bitlen (n div 2)" by linarith
    with False show ?thesis by (subst bitlen.simps) simp
  qed
qed

lemma bitlen_lower: "0 < n \<Longrightarrow> 2 ^ (bitlen n - 1) \<le> n"
proof (induction n rule: bitlen.induct)
  case (1 n)
  then have n: "n \<noteq> 0" by simp
  then have b: "bitlen n = Suc (bitlen (n div 2))" by (subst bitlen.simps) simp
  show ?case
  proof (cases "n div 2 = 0")
    case True
    with 1(2) b show ?thesis by (simp add: bitlen.simps)
  next
    case False
    with 1(1) n have ih: "2 ^ (bitlen (n div 2) - 1) \<le> n div 2" by simp
    from False have "bitlen (n div 2) \<noteq> 0" by (subst bitlen.simps) simp
    then have "(2 :: nat) ^ bitlen (n div 2) = 2 * 2 ^ (bitlen (n div 2) - 1)"
      by (cases "bitlen (n div 2)") simp_all
    with ih have "2 ^ bitlen (n div 2) \<le> n" by linarith
    with b show ?thesis by simp
  qed
qed

lemma rhe_ge: "num div den \<le> rhe num den"
  by (simp add: rhe_def Let_def)

lemma round_mag_large:
  assumes "2 ^ 1024 \<le> p"
  shows "INFBITS \<le> round_mag p 1"
proof -
  define b where "b = bitlen p"
  from assms have p0: "0 < p" by (rule less_le_trans [rotated]) simp
  have "(2 :: nat) ^ 1024 < 2 ^ b"
    using assms bitlen_upper [of p] unfolding b_def by (rule le_less_trans)
  then have b: "1024 < b" by (rule power_less_imp_less_exp [rotated]) simp
  define k where "k = b - 53"
  from b have bk: "b = k + 53" unfolding k_def by simp
  have one: "bitlen 1 = 1" by (simp add: bitlen.simps)
  from bitlen_lower [OF p0] have low: "2 ^ (k + 52) \<le> p"
    unfolding b_def [symmetric] bk by (simp add: add.commute)
  have "(2 :: nat) ^ (k + 52) div 2 ^ k \<le> p div 2 ^ k"
    using low by (rule div_le_mono)
  then have "(2 :: nat) ^ 52 \<le> p div 2 ^ k"
    by (simp add: power_add)
  also have "\<dots> \<le> rhe p (2 ^ k)" by (rule rhe_ge)
  finally have m: "(2 :: nat) ^ 52 \<le> rhe p (2 ^ k)" .
  from low have fl: "2 ^ (52 + k) \<le> p" by (simp only: add.commute)
  have "round_mag p 1 = (k + 1074) * 2 ^ 52 + rhe p (2 ^ k)"
    using p0 fl unfolding round_mag_def b_def [symmetric] one bk
    by (simp add: Let_def nat_add_distrib max_def)
  moreover from b bk have "971 < k" by simp
  then have "2046 * (2 :: nat) ^ 52 \<le> (k + 1074) * 2 ^ 52"
    by (intro mult_le_mono1) simp
  ultimately show ?thesis
    using m unfolding INFBITS_def by linarith
qed

lemma float_of_int_overflow:
  assumes "2 ^ 1024 \<le> n"
  shows "float_of_int n = None"
proof -
  from assms have "(2 :: int) ^ 1024 \<le> int (nat \<bar>n\<bar>)" by simp
  then have "int (2 ^ 1024) \<le> int (nat \<bar>n\<bar>)" by simp
  then have "2 ^ 1024 \<le> nat \<bar>n\<bar>" by (simp only: of_nat_le_iff)
  from round_mag_large [OF this] show ?thesis
    by (simp add: float_of_int_def Let_def)
qed
lemmas float_fields = is_nan_def is_inf_def fsign_def fmag_def fexp_def ffrac_def mant_def expo_def
  INFBITS_def

lemma FLOAT_0_02_bits: "FLOAT_0_02 = 0x3F947AE147AE147B"
  by (simp add: FLOAT_0_02_def pack_def round_mag_def bitlen.simps rhe_def INFBITS_def Let_def)

lemma fmul_commute: "\<not> (is_nan a \<and> is_nan b) \<Longrightarrow> fmul a b = fmul b a"
  by (cases "fsign a"; cases "fsign b") (auto simp: fmul_def Let_def add.commute mult.commute)

text \<open>The code writes \<open>0.02 * amount\<close>; it is also \<open>amount * 0.02\<close>.\<close>

lemma fee_commutes: "fmul FLOAT_0_02 x = fmul x FLOAT_0_02"
proof (rule fmul_commute)
  have "\<not> is_nan FLOAT_0_02"
    unfolding FLOAT_0_02_bits by (simp add: is_nan_def fmag_def INFBITS_def)
  then show "\<not> (is_nan FLOAT_0_02 \<and> is_nan x)" by simp
qed

lemma round3_100: "round3 0x4059000000000000 = 0x4059000000000000"
  by (simp add: round3_def float_fields round_mag_def bitlen.simps rhe_def Let_def pack_def)

lemma fmul_002_100_exact:
  "fmul 0x3F947AE147AE147B 0x4059000000000000
     = pack False (round_mag (5764607523034235 * 7036874417766400) (2 ^ 104))"
  by (simp add: fmul_def float_fields Let_def)

lemma fmul_002_100_rounded:
  "pack False (round_mag (5764607523034235 * 7036874417766400) (2 ^ 104)) = 0x4000000000000000"
  by (simp add: round_mag_def bitlen.simps rhe_def Let_def pack_def INFBITS_def)

lemma fmul_002_100: "fmul FLOAT_0_02 0x4059000000000000 = 0x4000000000000000"
  unfolding FLOAT_0_02_bits fmul_002_100_exact by (rule fmul_002_100_rounded)

lemma round3_2: "round3 0x4000000000000000 = 0x4000000000000000"
  by (simp add: round3_def float_fields round_mag_def bitlen.simps rhe_def Let_def pack_def)

lemma fsub_100_2: "fsub 0x4059000000000000 0x4000000000000000 = 0x4058800000000000"
  by (simp add: fsub_def float_fields round_mag_def bitlen.simps rhe_def Let_def pack_def)

lemma round3_98: "round3 0x4058800000000000 = 0x4058800000000000"
  by (simp add: round3_def float_fields round_mag_def bitlen.simps rhe_def Let_def pack_def)

lemma float_of_int_100: "float_of_int 100 = Some 0x4059000000000000"
  by (simp add: float_of_int_def round_mag_def bitlen.simps rhe_def Let_def pack_def INFBITS_def)

lemma float_of_int_2: "float_of_int 2 = Some 0x4000000000000000"
  by (simp add: float_of_int_def round_mag_def bitlen.simps rhe_def Let_def pack_def INFBITS_def)

lemma float_of_int_98: "float_of_int 98 = Some 0x4058800000000000"
  by (simp add: float_of_int_def round_mag_def bitlen.simps rhe_def Let_def pack_def INFBITS_def)
lemma payment_valid_checks:
  assumes "ev ''payment_id'' = Some (Atom (AStr p))"
    and "ev ''user_id'' = Some u" and "isinstance_int u"
    and "ev ''amount'' = Some (Atom a)"
    and "(\<exists>n. a = AInt n \<and> 0 < n) \<or> (\<exists>y. a = AFloat y \<and> \<not> float_le_zero y) \<or> a = ABool True"
    and "ev ''currency'' = Some (Atom (AStr cur))" and "py_upper cur \<in> codes ` ALLOWED_CURRENCIES"
  shows "payment_checks ev = Inr []"
proof -
  from assms(1) have "required_str ''payment_id'' (get ev ''payment_id'') = []"
    by (simp add: get_def required_str_def)
  moreover from assms(2,3) have "user_id_checks (get ev ''user_id'') = []"
    by (cases u rule: isinstance_int.cases) (simp_all add: get_def user_id_checks_def)
  moreover from assms(4,5) have "amount_checks (get ev ''amount'') = Inr []"
    by (auto simp: get_def amount_checks_def)
  moreover from assms(6,7) have "currency_checks (get ev ''currency'') = []"
    by (simp add: get_def currency_checks_def ALLOWED_CURRENCIES_def)
  ultimately show ?thesis
    by (simp add: payment_checks_def bind_exn_def)
qed

lemma payment_overflow:
  assumes "ev ''type'' = Some (Atom (AStr ''PAYMENT''))"
    and "ev ''payment_id'' = Some (Atom (AStr p))"
    and "ev ''user_id'' = Some u" and "isinstance_int u"
    and "ev ''amount'' = Some (Atom (AInt n))" and "2 ^ 1024 \<le> n"
    and "ev ''currency'' = Some (Atom (AStr cur))" and "py_upper cur \<in> codes ` ALLOWED_CURRENCIES"
  shows "handler (PDict ev) c = Inl OverflowError"
proof -
  from assms(6) have "0 < n" by (rule less_le_trans [rotated]) simp
  then have "(\<exists>m. AInt n = AInt m \<and> 0 < m) \<or> (\<exists>y. AInt n = AFloat y \<and> \<not> float_le_zero y) \<or>
      AInt n = ABool True"
    by simp
  from payment_valid_checks [OF assms(2,3,4,5) this assms(7,8)]
  have "payment_checks ev = Inr []" .
  moreover from assms(5) float_of_int_overflow [OF assms(6)]
  have "py_float (get ev ''amount'') = Inl OverflowError"
    by (simp add: get_def)
  ultimately have "handle_payment ev = Inl OverflowError"
    unfolding handle_payment_checks by (simp add: bind_exn_def)
  then show ?thesis
    unfolding handler_PAYMENT [of ev c, OF assms(1)] by simp
qed

lemma upper_usd: "py_upper ''usd'' = codes ''USD''"
  by (simp add: str_eval)

text \<open>
  Claim C2 says that every payment event with a \<open>str\<close> payment id, an \<open>int\<close> user id, a
  positive amount and an allowed currency succeeds, with the amount, fee and net amount
  in its data. \<open>float(amount)\<close> raises OverflowError for an \<open>int\<close> that no float can hold,
  and then no response is returned:
\<close>

theorem huge_amount_overflows:
  "handler (PDict [''type'' \<mapsto> Atom (AStr ''PAYMENT''), ''payment_id'' \<mapsto> Atom (AStr ''p1''),
                   ''user_id'' \<mapsto> Atom (AInt 1), ''amount'' \<mapsto> Atom (AInt (2 ^ 1024)),
                   ''currency'' \<mapsto> Atom (AStr ''usd'')]) (Atom ANone)
   = Inl OverflowError"
  by (rule payment_overflow [where n = "2 ^ 1024" and p = "''p1''" and u = "Atom (AInt 1)"
        and cur = "''usd''"])
     (simp_all add: upper_usd ALLOWED_CURRENCIES_def)

text \<open>
  Claim C2, amended: for every payment event whose payment id is a \<open>str\<close>, whose user id
  is an \<open>int\<close>, whose amount is a positive number that \<open>float\<close> converts to \<open>x\<close> (every
  \<open>float\<close> and \<open>bool\<close>, and every \<open>int\<close> that a float can hold) and whose currency is an
  allowed one in any case, the response is a success whose data hold the amount
  \<open>round(x, 3)\<close>, the currency in upper case, the fee \<open>round(0.02 * amount, 3)\<close> and the net
  amount \<open>round(amount - fee, 3)\<close>, computed from the rounded amount and fee. The witness is
  the amount 100.0 with the currency \<open>usd\<close>: fee 2.0, net amount 98.0, currency \<open>USD\<close>.
\<close>

theorem payment_fee_law:
  assumes "ev ''type'' = Some (Atom (AStr ''PAYMENT''))"
    and "ev ''payment_id'' = Some (Atom (AStr p))"
    and "ev ''user_id'' = Some u" and "isinstance_int u"
    and "ev ''amount'' = Some (Atom a)"
    and "(\<exists>n. a = AInt n \<and> 0 < n) \<or> (\<exists>y. a = AFloat y \<and> \<not> float_le_zero y) \<or> a = ABool True"
    and "py_float (Atom a) = Inr x"
    and "ev ''currency'' = Some (Atom (AStr cur))" and "py_upper cur \<in> codes ` ALLOWED_CURRENCIES"
  shows "\<exists>d. handler (PDict ev) c = Inr (Some (ok ''Payment processed'' d)) \<and>
           d ''amount'' = Some (Atom (AFloat (round3 x))) \<and>
           d ''currency'' = Some (Atom (AStr (str_of_codes (py_upper cur)))) \<and>
           d ''fee'' = Some (Atom (AFloat (round3 (fmul FLOAT_0_02 (round3 x))))) \<and>
           d ''net_amount'' =
             Some (Atom (AFloat (round3 (fsub (round3 x) (round3 (fmul FLOAT_0_02 (round3 x)))))))"
proof -
  note payment_valid_checks [OF assms(2,3,4,5,6,8,9)]
  moreover from assms(5,7) have "py_float (get ev ''amount'') = Inr x"
    by (simp add: get_def)
  moreover from assms(8) have "str_upper (get ev ''currency'') = Inr (py_upper cur)"
    by (simp add: get_def)
  ultimately have "handle_payment ev = Inr (ok ''Payment processed''
                 [''payment_id'' \<mapsto> get ev ''payment_id'',
                  ''user_id'' \<mapsto> get ev ''user_id'',
                  ''amount'' \<mapsto> Atom (AFloat (round3 x)),
                  ''currency'' \<mapsto> Atom (AStr (str_of_codes (py_upper cur))),
                  ''fee'' \<mapsto> Atom (AFloat (round3 (fmul FLOAT_0_02 (round3 x)))),
                  ''net_amount'' \<mapsto>
                    Atom (AFloat (round3 (fsub (round3 x) (round3 (fmul FLOAT_0_02 (round3 x))))))])"
    unfolding handle_payment_checks by (simp add: bind_exn_def)
  then have "handler (PDict ev) c = Inr (Some (ok ''Payment processed''
                 [''payment_id'' \<mapsto> get ev ''payment_id'',
                  ''user_id'' \<mapsto> get ev ''user_id'',
                  ''amount'' \<mapsto> Atom (AFloat (round3 x)),
                  ''currency'' \<mapsto> Atom (AStr (str_of_codes (py_upper cur))),
                  ''fee'' \<mapsto> Atom (AFloat (round3 (fmul FLOAT_0_02 (round3 x)))),
                  ''net_amount'' \<mapsto>
                    Atom (AFloat (round3 (fsub (round3 x) (round3 (fmul FLOAT_0_02 (round3 x))))))]))"
    unfolding handler_PAYMENT [of ev c, OF assms(1)] by simp
  then show ?thesis
    by (rule exI [of _ "[''payment_id'' \<mapsto> get ev ''payment_id'',
                  ''user_id'' \<mapsto> get ev ''user_id'',
                  ''amount'' \<mapsto> Atom (AFloat (round3 x)),
                  ''currency'' \<mapsto> Atom (AStr (str_of_codes (py_upper cur))),
                  ''fee'' \<mapsto> Atom (AFloat (round3 (fmul FLOAT_0_02 (round3 x)))),
                  ''net_amount'' \<mapsto>
                    Atom (AFloat (round3 (fsub (round3 x) (round3 (fmul FLOAT_0_02 (round3 x))))))]",
          OF conjI]) simp
qed

theorem payment_fee_law_witness:
  "(\<exists>d. handler (PDict [''type'' \<mapsto> Atom (AStr ''PAYMENT''), ''payment_id'' \<mapsto> Atom (AStr ''p1''),
                         ''user_id'' \<mapsto> Atom (AInt 1),
                         ''amount'' \<mapsto> Atom (AFloat 0x4059000000000000),
                         ''currency'' \<mapsto> Atom (AStr ''usd'')]) (Atom ANone)
          = Inr (Some (ok ''Payment processed'' d)) \<and>
        d ''amount'' = Some (Atom (AFloat 0x4059000000000000)) \<and>
        d ''currency'' = Some (Atom (AStr ''USD'')) \<and>
        d ''fee'' = Some (Atom (AFloat 0x4000000000000000)) \<and>
        d ''net_amount'' = Some (Atom (AFloat 0x4058800000000000))) \<and>
   float_of_int 100 = Some 0x4059000000000000 \<and>
   float_of_int 2 = Some 0x4000000000000000 \<and>
   float_of_int 98 = Some 0x4058800000000000"
proof -
  have pos: "\<not> float_le_zero 0x4059000000000000"
    by (simp add: float_le_zero_def float_fields)
  have cur: "py_upper ''usd'' \<in> codes ` ALLOWED_CURRENCIES"
    by (simp add: upper_usd ALLOWED_CURRENCIES_def)
  have up: "str_of_codes (py_upper ''usd'') = ''USD''"
    by (simp add: str_eval)
  from payment_fee_law
    [of "[''type'' \<mapsto> Atom (AStr ''PAYMENT''), ''payment_id'' \<mapsto> Atom (AStr ''p1''),
          ''user_id'' \<mapsto> Atom (AInt 1), ''amount'' \<mapsto> Atom (AFloat 0x4059000000000000),
          ''currency'' \<mapsto> Atom (AStr ''usd'')]"
        "''p1''" "Atom (AInt 1)" "AFloat 0x4059000000000000" "0x4059000000000000" "''usd''"
        "Atom ANone"] pos cur
  have "\<exists>d. handler (PDict [''type'' \<mapsto> Atom (AStr ''PAYMENT''), ''payment_id'' \<mapsto> Atom (AStr ''p1''),
                         ''user_id'' \<mapsto> Atom (AInt 1),
                         ''amount'' \<mapsto> Atom (AFloat 0x4059000000000000),
                         ''currency'' \<mapsto> Atom (AStr ''usd'')]) (Atom ANone)
          = Inr (Some (ok ''Payment processed'' d)) \<and>
        d ''amount'' = Some (Atom (AFloat 0x4059000000000000)) \<and>
        d ''currency'' = Some (Atom (AStr ''USD'')) \<and>
        d ''fee'' = Some (Atom (AFloat 0x4000000000000000)) \<and>
        d ''net_amount'' = Some (Atom (AFloat 0x4058800000000000))"
    by (simp add: up round3_100 fmul_002_100 round3_2 fsub_100_2 round3_98)
  then show ?thesis
    using float_of_int_100 float_of_int_2 float_of_int_98 by (intro conjI)
qed

end
